theory Spec2Isabelle
  imports Complex_Main "HOL-Library.Word"
begin

section \<open>Data model\<close>

text \<open>
  The module declares \<^verbatim>\<open>ctypedef unsigned int DTYPE_ui\<close> and
  \<^verbatim>\<open>ctypedef double DTYPE_coord\<close>. Indices and counts are 32-bit words, so that
  \<open>+\<close> and \<open>-\<close> wrap as in C. Coordinates are modelled by real numbers: every
  statement below is about the control flow and the sequence of arithmetic operations
  of the code, not about IEEE rounding.
\<close>

type_synonym DTYPE_ui = "32 word"
type_synonym DTYPE_coord = real

text \<open>
  Outcomes of a call other than a returned value.
  \<^item> \<open>OutOfBounds\<close>: every function is compiled with \<^verbatim>\<open>boundscheck(False)\<close>, so a
    read or write outside a buffer is undefined behaviour in C; the model stops there.
  \<^item> \<open>ZeroDivisionError\<close>: a division of C doubles whose divisor is zero (what Cython
    raises with its default division semantics); the model stops at every zero divisor.
  \<^item> \<open>OverflowError\<close>: a Python integer that does not fit the \<^verbatim>\<open>unsigned int\<close> it is
    assigned to.
  \<^item> \<open>ValueError\<close>: numpy's error for shapes that do not broadcast and for the
    maximum of an empty array.
  \<^item> \<open>LinAlgError\<close>: numpy's error for a least-squares system whose right-hand
    side does not have one entry per row.
  \<^item> \<open>NumericError\<close>: the error the specification names for a fit whose radius is
    zero or not finite. No statement of the source raises it; it is here so that
    "signals a \<open>NumericError\<close>" can be written down.
\<close>

datatype error =
  OutOfBounds | ZeroDivisionError | OverflowError | ValueError | LinAlgError | NumericError

text \<open>A one-dimensional \<^verbatim>\<open>ndarray\<close> (or the buffer behind a pointer) is a list.\<close>

definition in_bounds :: "'a list \<Rightarrow> DTYPE_ui \<Rightarrow> bool" where
  "in_bounds a i = (unat i < length a)"

definition elt :: "'a list \<Rightarrow> DTYPE_ui \<Rightarrow> 'a" where
  "elt a i = a ! unat i"

text \<open>Incrementing a loop index that is below its bound does not wrap.\<close>

lemma unat_succ: "(i :: 'a::len word) < e \<Longrightarrow> unat (i + 1) = Suc (unat i)"
proof -
  assume "i < e"
  then have "i \<noteq> - 1"
    by (metis word_order.extremum_strict)
  then have "1 + i \<noteq> 0"
    by (metis add.commute add_eq_0_iff)
  then show ?thesis
    by (simp add: unatSuc add.commute)
qed

section \<open>ContourIndex\<close>

subsection \<open>\<^verbatim>\<open>dist_array_size\<close>\<close>

text \<open>
  \<^verbatim>\<open>for i_elt from i_start <= i_elt < i_end: nb_pts += nb_pt_per_c[i_elt]\<close>
\<close>

function nb_pts_loop :: "DTYPE_ui list \<Rightarrow> DTYPE_ui \<Rightarrow> DTYPE_ui \<Rightarrow> DTYPE_ui \<Rightarrow> error + DTYPE_ui" where
  "nb_pts_loop nb_pt_per_c i_elt i_end nb_pts =
     (if i_elt < i_end then
        (if in_bounds nb_pt_per_c i_elt
         then nb_pts_loop nb_pt_per_c (i_elt + 1) i_end (nb_pts + elt nb_pt_per_c i_elt)
         else Inl OutOfBounds)
      else Inr nb_pts)"
  by pat_completeness auto
termination
  by (relation "measure (\<lambda>(a, i_elt, i_end, s). unat i_end - unat i_elt)")
     (auto simp: word_less_nat_alt unat_succ)

declare nb_pts_loop.simps [simp del]

text \<open>
  \<^verbatim>\<open>cdef dist_array_size(DTYPE_ui l_i, DTYPE_ui nb_c_per_l, DTYPE_ui * nb_pt_per_c, DTYPE_ui * c_i)\<close>.
  \<open>i_contour\<close> is not declared with a C type: \<open>c_i[i_start]\<close> becomes a Python
  integer and \<open>i_contour + nb_pts\<close> is an unbounded sum. The four results go back
  into \<^verbatim>\<open>DTYPE_ui\<close> variables of the caller, where a value of \<open>2 ^ 32\<close> or more
  raises \<open>OverflowError\<close>.
\<close>

definition dist_array_size ::
  "DTYPE_ui \<Rightarrow> DTYPE_ui \<Rightarrow> DTYPE_ui list \<Rightarrow> DTYPE_ui list \<Rightarrow>
   error + (DTYPE_ui \<times> DTYPE_ui \<times> DTYPE_ui \<times> DTYPE_ui)" where
  "dist_array_size l_i nb_c_per_l nb_pt_per_c c_i =
     (let i_start = l_i;
          i_end = i_start + nb_c_per_l
      in case nb_pts_loop nb_pt_per_c i_start i_end 0 of
           Inl e \<Rightarrow> Inl e
         | Inr nb_pts \<Rightarrow>
             if in_bounds c_i i_start then
               (let i_contour = unat (elt c_i i_start) in
                if i_contour + unat nb_pts < 2 ^ 32
                then Inr (i_start, i_end, of_nat i_contour, of_nat (i_contour + unat nb_pts))
                else Inl OverflowError)
             else Inl OutOfBounds)"

subsection \<open>\<^verbatim>\<open>nearest_contour_index\<close>\<close>

text \<open>
  The loop of \<^verbatim>\<open>nearest_contour_index\<close>, with its state \<open>(i_ref, dist_ref)\<close>:
  \<^verbatim>\<open>
  for i_elt from start <= i_elt < end:
      dist = (x_value[i_elt] - xpt) ** 2 + (y_value[i_elt] - ypt) ** 2
      if dist < dist_ref:
          dist_ref = dist
          i_ref = i_elt
  \<close>
\<close>

function nearest_loop ::
  "DTYPE_coord list \<Rightarrow> DTYPE_coord list \<Rightarrow> DTYPE_coord \<Rightarrow> DTYPE_coord \<Rightarrow>
   DTYPE_ui \<Rightarrow> DTYPE_ui \<Rightarrow> DTYPE_ui \<Rightarrow> DTYPE_coord \<Rightarrow> error + DTYPE_ui" where
  "nearest_loop x_value y_value xpt ypt i_elt end i_ref dist_ref =
     (if i_elt < end then
        (if in_bounds x_value i_elt \<and> in_bounds y_value i_elt then
           (let dist = (elt x_value i_elt - xpt)\<^sup>2 + (elt y_value i_elt - ypt)\<^sup>2
            in if dist < dist_ref
               then nearest_loop x_value y_value xpt ypt (i_elt + 1) end i_elt dist
               else nearest_loop x_value y_value xpt ypt (i_elt + 1) end i_ref dist_ref)
         else Inl OutOfBounds)
      else Inr i_ref)"
  by pat_completeness auto
termination
  by (relation "measure (\<lambda>(x, y, xp, yp, i_elt, e, r, d). unat e - unat i_elt)")
     (auto simp: word_less_nat_alt unat_succ)

declare nearest_loop.simps [simp del]

definition nearest_contour_index ::
  "DTYPE_coord list \<Rightarrow> DTYPE_coord list \<Rightarrow> DTYPE_coord \<Rightarrow> DTYPE_coord \<Rightarrow>
   DTYPE_ui \<Rightarrow> DTYPE_ui \<Rightarrow> error + DTYPE_ui" where
  "nearest_contour_index x_value y_value xpt ypt start end =
     (if in_bounds x_value start \<and> in_bounds y_value start then
        (let i_ref = start;
             dist_ref = (elt x_value start - xpt)\<^sup>2 + (elt y_value start - ypt)\<^sup>2
         in case nearest_loop x_value y_value xpt ypt start end i_ref dist_ref of
              Inl e \<Rightarrow> Inl e
            | Inr i_ref' \<Rightarrow> Inr (i_ref' - start))
      else Inl OutOfBounds)"

subsection \<open>\<^verbatim>\<open>index_from_nearest_path\<close>\<close>

text \<open>
  The ownership scan. A \<^verbatim>\<open>for ... from\<close> loop is a C \<^verbatim>\<open>for\<close> loop on the variable
  itself, so after the last iteration \<open>i_elt\<close> is the first value that fails the test,
  and the statement after the loop reads that value:
  \<^verbatim>\<open>
  for i_elt from main_start <= i_elt < main_stop:
      if (indices_of_first_pts[i_elt] - indices_of_first_pts[main_start]) > nearesti:
          return i_elt - 1 - main_start
  return i_elt - 1 - main_start
  \<close>
\<close>

function owner_loop ::
  "DTYPE_ui list \<Rightarrow> DTYPE_ui \<Rightarrow> DTYPE_ui \<Rightarrow> DTYPE_ui \<Rightarrow> DTYPE_ui \<Rightarrow> error + DTYPE_ui" where
  "owner_loop indices_of_first_pts main_start main_stop nearesti i_elt =
     (if i_elt < main_stop then
        (if in_bounds indices_of_first_pts i_elt \<and> in_bounds indices_of_first_pts main_start then
           (if elt indices_of_first_pts i_elt - elt indices_of_first_pts main_start > nearesti
            then Inr (i_elt - 1 - main_start)
            else owner_loop indices_of_first_pts main_start main_stop nearesti (i_elt + 1))
         else Inl OutOfBounds)
      else Inr (i_elt - 1 - main_start))"
  by pat_completeness auto
termination
  by (relation "measure (\<lambda>(a, ms, me, n, i_elt). unat me - unat i_elt)")
     (auto simp: word_less_nat_alt unat_succ)

declare owner_loop.simps [simp del]

text \<open>
  \<^verbatim>\<open>def index_from_nearest_path(level_index, l_i, nb_c_per_l, nb_pt_per_c,
  indices_of_first_pts, x_value, y_value, xpt, ypt)\<close>. The result \<open>None\<close> is Python's
  \<^verbatim>\<open>None\<close>. The call of \<^verbatim>\<open>nearest_contour_index\<close> is written as in the source:
  both coordinate pointers are \<^verbatim>\<open>& y_value[0]\<close>.
\<close>

definition index_from_nearest_path ::
  "DTYPE_ui \<Rightarrow> DTYPE_ui list \<Rightarrow> DTYPE_ui list \<Rightarrow> DTYPE_ui list \<Rightarrow> DTYPE_ui list \<Rightarrow>
   DTYPE_coord list \<Rightarrow> DTYPE_coord list \<Rightarrow> DTYPE_coord \<Rightarrow> DTYPE_coord \<Rightarrow>
   error + DTYPE_ui option" where
  "index_from_nearest_path level_index l_i nb_c_per_l nb_pt_per_c indices_of_first_pts
       x_value y_value xpt ypt =
     (if in_bounds nb_c_per_l level_index then
        (let nb_contour = elt nb_c_per_l level_index in
         if nb_contour = 0 then Inr None
         else if in_bounds l_i level_index then
           (case dist_array_size (elt l_i level_index) nb_contour nb_pt_per_c indices_of_first_pts of
              Inl e \<Rightarrow> Inl e
            | Inr (main_start, main_stop, start, end) \<Rightarrow>
                (case nearest_contour_index y_value y_value xpt ypt start end of
                   Inl e \<Rightarrow> Inl e
                 | Inr nearesti \<Rightarrow>
                     (case owner_loop indices_of_first_pts main_start main_stop nearesti main_start of
                        Inl e \<Rightarrow> Inl e
                      | Inr i \<Rightarrow> Inr (Some i))))
         else Inl OutOfBounds)
      else Inl OutOfBounds)"

subsection \<open>Well-formed collections\<close>

text \<open>
  The invariants of the flattened multi-level collection, for one level: the level's
  contours are the contiguous range \<open>[l_i[level], l_i[level] + nb_c_per_l[level])\<close> of the
  per-contour arrays; \<open>indices_of_first_pts\<close> is non-decreasing; each contour's
  starting offset is an offset into \<open>x_value\<close>/\<open>y_value\<close> and its points lie inside
  them; within the level, a contour starts where the previous one stops (so the point
  counts of the level add up to the span it takes in \<open>x_value\<close>/\<open>y_value\<close>). All arrays
  can be indexed by a \<^verbatim>\<open>DTYPE_ui\<close>.
\<close>

definition level_well_formed ::
  "DTYPE_ui \<Rightarrow> DTYPE_ui list \<Rightarrow> DTYPE_ui list \<Rightarrow> DTYPE_ui list \<Rightarrow> DTYPE_ui list \<Rightarrow>
   DTYPE_coord list \<Rightarrow> DTYPE_coord list \<Rightarrow> bool" where
  "level_well_formed level_index l_i nb_c_per_l nb_pt_per_c indices_of_first_pts x_value y_value =
     (in_bounds l_i level_index \<and> in_bounds nb_c_per_l level_index \<and>
      length indices_of_first_pts = length nb_pt_per_c \<and> length nb_pt_per_c < 2 ^ 32 \<and>
      length y_value = length x_value \<and> length x_value < 2 ^ 32 \<and>
      sorted (map unat indices_of_first_pts) \<and>
      (let first = unat (elt l_i level_index);
           n = unat (elt nb_c_per_l level_index)
       in first + n \<le> length nb_pt_per_c \<and>
          (\<forall>c \<in> {first ..< first + n}.
             unat (indices_of_first_pts ! c) < length x_value \<and>
             unat (indices_of_first_pts ! c) + unat (nb_pt_per_c ! c) \<le> length x_value \<and>
             (c + 1 < first + n \<longrightarrow>
                unat (indices_of_first_pts ! (c + 1)) =
                unat (indices_of_first_pts ! c) + unat (nb_pt_per_c ! c)))))"


section \<open>PolygonContainment\<close>

text \<open>
  In the three components below the loop indices only count upwards from 0 to a bound
  read from an array's \<^verbatim>\<open>shape[0]\<close>. They are natural numbers; the one place where the
  width of \<^verbatim>\<open>DTYPE_ui\<close> shows is the assignment of \<^verbatim>\<open>shape[0]\<close> to \<open>nb_elt\<close>, a C
  conversion that keeps the value modulo \<open>2 ^ 32\<close> (and \<open>nb_elt - 1\<close> in
  \<^verbatim>\<open>fit_circle_c\<close>), and this is written out.
\<close>

definition shape0 :: "'a list \<Rightarrow> nat" where
  "shape0 a = length a mod 2 ^ 32"

definition is_left ::
  "DTYPE_coord \<Rightarrow> DTYPE_coord \<Rightarrow> DTYPE_coord \<Rightarrow> DTYPE_coord \<Rightarrow> DTYPE_coord \<Rightarrow> DTYPE_coord \<Rightarrow> bool" where
  "is_left x_line_0 y_line_0 x_line_1 y_line_1 x_test y_test =
     (let product = (x_line_1 - x_line_0) * (y_test - y_line_0)
                    - (x_test - x_line_0) * (y_line_1 - y_line_0)
      in product > 0)"

text \<open>
  The body of the loop of \<^verbatim>\<open>winding_number_poly\<close> once \<open>x_next\<close>, \<open>y_next\<close> are set:
  the new value of \<open>wn\<close> for the edge from \<open>(x, y)\<close> to \<open>(x_next, y_next)\<close>. The counter
  is a C \<^verbatim>\<open>int\<close>; it changes by at most one per edge, so it is an integer here, exact
  for rings of fewer than \<open>2 ^ 31\<close> vertices.
\<close>

definition edge_step ::
  "DTYPE_coord \<Rightarrow> DTYPE_coord \<Rightarrow> DTYPE_coord \<times> DTYPE_coord \<Rightarrow> DTYPE_coord \<times> DTYPE_coord \<Rightarrow> int \<Rightarrow> int" where
  "edge_step x_test y_test p next wn =
     (let x_next = fst next; y_next = snd next in
      if snd p \<le> y_test then
        (if y_next > y_test then
           (if is_left (fst p) (snd p) x_next y_next x_test y_test then wn + 1 else wn)
         else wn)
      else
        (if y_next \<le> y_test then
           (if \<not> is_left (fst p) (snd p) x_next y_next x_test y_test then wn - 1 else wn)
         else wn))"

text \<open>
  \<open>xy_poly\<close> is a two-dimensional array with columns 0 and 1: a list of rows \<open>(x, y)\<close>.
  \<^verbatim>\<open>
  for i_elt from 0 <= i_elt < (nb_elt):
      if i_elt + 1 == nb_elt:
          x_next = xy_poly[0, 0]; y_next = xy_poly[0, 1]
      else:
          x_next = xy_poly[i_elt + 1, 0]; y_next = xy_poly[i_elt + 1, 1]
      ...
  \<close>
\<close>

function wn_loop ::
  "DTYPE_coord \<Rightarrow> DTYPE_coord \<Rightarrow> (DTYPE_coord \<times> DTYPE_coord) list \<Rightarrow> nat \<Rightarrow> nat \<Rightarrow> int \<Rightarrow> error + int" where
  "wn_loop x_test y_test xy_poly nb_elt i_elt wn =
     (if i_elt < nb_elt then
        (let i_next = (if i_elt + 1 = nb_elt then 0 else i_elt + 1) in
         if i_elt < length xy_poly \<and> i_next < length xy_poly
         then wn_loop x_test y_test xy_poly nb_elt (i_elt + 1)
                (edge_step x_test y_test (xy_poly ! i_elt) (xy_poly ! i_next) wn)
         else Inl OutOfBounds)
      else Inr wn)"
  by pat_completeness auto
termination
  by (relation "measure (\<lambda>(x, y, p, nb_elt, i_elt, wn). nb_elt - i_elt)") auto

declare wn_loop.simps [simp del]

definition winding_number_poly ::
  "DTYPE_coord \<Rightarrow> DTYPE_coord \<Rightarrow> (DTYPE_coord \<times> DTYPE_coord) list \<Rightarrow> error + int" where
  "winding_number_poly x_test y_test xy_poly =
     wn_loop x_test y_test xy_poly (shape0 xy_poly) 0 0"

section \<open>GeoDistance\<close>

definition D2R :: DTYPE_coord where
  "D2R = 0.017453292519943295"

definition PI :: DTYPE_coord where
  "PI = 3.141592653589793"

text \<open>
  \<^verbatim>\<open>atan2\<close> of the C library, as the function on the reals: the angle of the point
  \<open>(x, y)\<close> in \<open>(-\<pi>, \<pi>]\<close>. \<^verbatim>\<open>v ** 0.5\<close> on a C double is \<^verbatim>\<open>pow(v, 0.5)\<close>, the square
  root where \<open>v\<close> is not negative.
\<close>

definition atan2 :: "real \<Rightarrow> real \<Rightarrow> real" where
  "atan2 y x =
     (if 0 < x then arctan (y / x)
      else if x < 0 then (if 0 \<le> y then arctan (y / x) + pi else arctan (y / x) - pi)
      else if 0 < y then pi / 2
      else if y < 0 then - (pi / 2)
      else 0)"

definition pow_half :: "DTYPE_coord \<Rightarrow> DTYPE_coord" where
  "pow_half v = sqrt v"

definition distance ::
  "DTYPE_coord \<Rightarrow> DTYPE_coord \<Rightarrow> DTYPE_coord \<Rightarrow> DTYPE_coord \<Rightarrow> DTYPE_coord" where
  "distance lon0 lat0 lon1 lat1 =
     (let sin_dlat = sin ((lat1 - lat0) * 0.5 * D2R);
          sin_dlon = sin ((lon1 - lon0) * 0.5 * D2R);
          cos_lat1 = cos (lat0 * D2R);
          cos_lat2 = cos (lat1 * D2R);
          a_val = sin_dlon\<^sup>2 * cos_lat1 * cos_lat2 + sin_dlat\<^sup>2
      in 6371315.0 * 2 * atan2 (pow_half a_val) (pow_half (1 - a_val)))"

text \<open>
  \<^verbatim>\<open>distance_vector\<close> fills the array \<open>dist\<close> it is given and returns nothing; the model
  returns the array after the call (\<open>dist_arr\<close>, as \<open>dist\<close> is the metric of the
  library). The loop body repeats the body of \<^verbatim>\<open>distance\<close>.
\<close>

function distance_vector_loop ::
  "DTYPE_coord list \<Rightarrow> DTYPE_coord list \<Rightarrow> DTYPE_coord list \<Rightarrow> DTYPE_coord list \<Rightarrow>
   nat \<Rightarrow> nat \<Rightarrow> DTYPE_coord list \<Rightarrow> error + DTYPE_coord list" where
  "distance_vector_loop lon0 lat0 lon1 lat1 nb_elt i_elt dist_arr =
     (if i_elt < nb_elt then
        (if i_elt < length lat1 \<and> i_elt < length lat0 \<and> i_elt < length lon1 \<and>
            i_elt < length lon0 \<and> i_elt < length dist_arr then
           (let sin_dlat = sin ((lat1 ! i_elt - lat0 ! i_elt) * 0.5 * D2R);
                sin_dlon = sin ((lon1 ! i_elt - lon0 ! i_elt) * 0.5 * D2R);
                cos_lat1 = cos (lat0 ! i_elt * D2R);
                cos_lat2 = cos (lat1 ! i_elt * D2R);
                a_val = sin_dlon\<^sup>2 * cos_lat1 * cos_lat2 + sin_dlat\<^sup>2
            in distance_vector_loop lon0 lat0 lon1 lat1 nb_elt (i_elt + 1)
                 (dist_arr[i_elt := 6371315.0 * 2 * atan2 (pow_half a_val) (pow_half (1 - a_val))]))
         else Inl OutOfBounds)
      else Inr dist_arr)"
  by pat_completeness auto
termination
  by (relation "measure (\<lambda>(a, b, c, d, nb_elt, i_elt, e). nb_elt - i_elt)") auto

declare distance_vector_loop.simps [simp del]

definition distance_vector ::
  "DTYPE_coord list \<Rightarrow> DTYPE_coord list \<Rightarrow> DTYPE_coord list \<Rightarrow> DTYPE_coord list \<Rightarrow>
   DTYPE_coord list \<Rightarrow> error + DTYPE_coord list" where
  "distance_vector lon0 lat0 lon1 lat1 dist_arr =
     distance_vector_loop lon0 lat0 lon1 lat1 (shape0 lon0) 0 dist_arr"

text \<open>
  \<^verbatim>\<open>distance_matrix\<close>: \<open>dist\<close> is a two-dimensional array, a list of rows. The inner
  loop runs over \<open>i_elt1\<close> for a fixed \<open>i_elt0\<close>.
\<close>

function distance_matrix_row ::
  "DTYPE_coord list \<Rightarrow> DTYPE_coord list \<Rightarrow> DTYPE_coord list \<Rightarrow> DTYPE_coord list \<Rightarrow>
   nat \<Rightarrow> nat \<Rightarrow> nat \<Rightarrow> DTYPE_coord list list \<Rightarrow> error + DTYPE_coord list list" where
  "distance_matrix_row lon0 lat0 lon1 lat1 nb_elt1 i_elt0 i_elt1 dist_arr =
     (if i_elt1 < nb_elt1 then
        (if i_elt1 < length lat1 \<and> i_elt0 < length lat0 \<and> i_elt1 < length lon1 \<and>
            i_elt0 < length lon0 \<and> i_elt0 < length dist_arr \<and> i_elt1 < length (dist_arr ! i_elt0) then
           (let sin_dlat = sin ((lat1 ! i_elt1 - lat0 ! i_elt0) * 0.5 * D2R);
                sin_dlon = sin ((lon1 ! i_elt1 - lon0 ! i_elt0) * 0.5 * D2R);
                cos_lat1 = cos (lat0 ! i_elt0 * D2R);
                cos_lat2 = cos (lat1 ! i_elt1 * D2R);
                a_val = sin_dlon\<^sup>2 * cos_lat1 * cos_lat2 + sin_dlat\<^sup>2
            in distance_matrix_row lon0 lat0 lon1 lat1 nb_elt1 i_elt0 (i_elt1 + 1)
                 (dist_arr[i_elt0 := (dist_arr ! i_elt0)
                    [i_elt1 := 6371315.0 * 2 * atan2 (pow_half a_val) (pow_half (1 - a_val))]]))
         else Inl OutOfBounds)
      else Inr dist_arr)"
  by pat_completeness auto
termination
  by (relation "measure (\<lambda>(a, b, c, d, nb_elt1, i0, i_elt1, e). nb_elt1 - i_elt1)") auto

declare distance_matrix_row.simps [simp del]

function distance_matrix_loop ::
  "DTYPE_coord list \<Rightarrow> DTYPE_coord list \<Rightarrow> DTYPE_coord list \<Rightarrow> DTYPE_coord list \<Rightarrow>
   nat \<Rightarrow> nat \<Rightarrow> nat \<Rightarrow> DTYPE_coord list list \<Rightarrow> error + DTYPE_coord list list" where
  "distance_matrix_loop lon0 lat0 lon1 lat1 nb_elt0 nb_elt1 i_elt0 dist_arr =
     (if i_elt0 < nb_elt0 then
        (case distance_matrix_row lon0 lat0 lon1 lat1 nb_elt1 i_elt0 0 dist_arr of
           Inl e \<Rightarrow> Inl e
         | Inr dist' \<Rightarrow> distance_matrix_loop lon0 lat0 lon1 lat1 nb_elt0 nb_elt1 (i_elt0 + 1) dist')
      else Inr dist_arr)"
  by pat_completeness auto
termination
  by (relation "measure (\<lambda>(a, b, c, d, nb_elt0, nb_elt1, i_elt0, e). nb_elt0 - i_elt0)") auto

declare distance_matrix_loop.simps [simp del]

definition distance_matrix ::
  "DTYPE_coord list \<Rightarrow> DTYPE_coord list \<Rightarrow> DTYPE_coord list \<Rightarrow> DTYPE_coord list \<Rightarrow>
   DTYPE_coord list list \<Rightarrow> error + DTYPE_coord list list" where
  "distance_matrix lon0 lat0 lon1 lat1 dist_arr =
     distance_matrix_loop lon0 lat0 lon1 lat1 (shape0 lon0) (shape0 lon1) 0 dist_arr"

section \<open>CircleFitter\<close>

text \<open>
  \<^verbatim>\<open>numpy.linalg.lstsq\<close> is a parameter of the model: a function from the matrix
  \<open>datas\<close> (a list of rows) and the right-hand side to the three entries of its
  solution. \<open>residual\<close> is the sum of squares that a least-squares solution minimises.
\<close>

type_synonym lstsq_fun =
  "DTYPE_coord list list \<Rightarrow> DTYPE_coord list \<Rightarrow> DTYPE_coord \<times> DTYPE_coord \<times> DTYPE_coord"

definition residual ::
  "DTYPE_coord list list \<Rightarrow> DTYPE_coord list \<Rightarrow> DTYPE_coord \<times> DTYPE_coord \<times> DTYPE_coord \<Rightarrow> real" where
  "residual datas rhs sol =
     (case sol of (a, b, c) \<Rightarrow>
        (\<Sum>(row, v) \<leftarrow> zip datas rhs. (row ! 0 * a + row ! 1 * b + row ! 2 * c - v)\<^sup>2))"

definition least_squares ::
  "DTYPE_coord list list \<Rightarrow> DTYPE_coord list \<Rightarrow> DTYPE_coord \<times> DTYPE_coord \<times> DTYPE_coord \<Rightarrow> bool" where
  "least_squares datas rhs sol = (\<forall>sol'. residual datas rhs sol \<le> residual datas rhs sol')"

text \<open>
  \<^verbatim>\<open>
  for i_elt from 0 <= i_elt < nb_elt:
      x_mean += x_vec[i_elt]
      y_mean += y_vec[i_elt]
  \<close>
\<close>

function mean_loop ::
  "DTYPE_coord list \<Rightarrow> DTYPE_coord list \<Rightarrow> nat \<Rightarrow> nat \<Rightarrow> DTYPE_coord \<Rightarrow> DTYPE_coord \<Rightarrow>
   error + DTYPE_coord \<times> DTYPE_coord" where
  "mean_loop x_vec y_vec nb_elt i_elt x_mean y_mean =
     (if i_elt < nb_elt then
        (if i_elt < length x_vec \<and> i_elt < length y_vec
         then mean_loop x_vec y_vec nb_elt (i_elt + 1) (x_mean + x_vec ! i_elt) (y_mean + y_vec ! i_elt)
         else Inl OutOfBounds)
      else Inr (x_mean, y_mean))"
  by pat_completeness auto
termination
  by (relation "measure (\<lambda>(x, y, nb_elt, i_elt, a, b). nb_elt - i_elt)") auto

declare mean_loop.simps [simp del]

text \<open>
  \<^verbatim>\<open>norme = (x_vec - x_mean) ** 2 + (y_vec - y_mean) ** 2\<close> on numpy arrays: element by
  element for equal lengths; an array of length one is broadcast; other shapes raise.
  \<^verbatim>\<open>norme.max()\<close> raises on an empty array.
\<close>

definition norme_of ::
  "DTYPE_coord list \<Rightarrow> DTYPE_coord list \<Rightarrow> DTYPE_coord \<Rightarrow> DTYPE_coord \<Rightarrow> error + DTYPE_coord list" where
  "norme_of x_vec y_vec x_mean y_mean =
     (if length x_vec = length y_vec
      then Inr (map2 (\<lambda>x y. (x - x_mean)\<^sup>2 + (y - y_mean)\<^sup>2) x_vec y_vec)
      else if length x_vec = 1
      then Inr (map (\<lambda>y. (x_vec ! 0 - x_mean)\<^sup>2 + (y - y_mean)\<^sup>2) y_vec)
      else if length y_vec = 1
      then Inr (map (\<lambda>x. (x - x_mean)\<^sup>2 + (y_vec ! 0 - y_mean)\<^sup>2) x_vec)
      else Inl ValueError)"

definition array_max :: "DTYPE_coord list \<Rightarrow> error + DTYPE_coord" where
  "array_max a = (case a of [] \<Rightarrow> Inl ValueError | v # vs \<Rightarrow> Inr (fold max vs v))"

text \<open>
  \<^verbatim>\<open>
  datas = ones((nb_elt, 3), dtype='f8')
  for i_elt from 0 <= i_elt < nb_elt:
      datas[i_elt, 0] = 2. * (x_vec[i_elt] - x_mean) / scale
      datas[i_elt, 1] = 2. * (y_vec[i_elt] - y_mean) / scale
  \<close>
\<close>

function datas_loop ::
  "DTYPE_coord list \<Rightarrow> DTYPE_coord list \<Rightarrow> DTYPE_coord \<Rightarrow> DTYPE_coord \<Rightarrow> DTYPE_coord \<Rightarrow>
   nat \<Rightarrow> nat \<Rightarrow> DTYPE_coord list list \<Rightarrow> error + DTYPE_coord list list" where
  "datas_loop x_vec y_vec x_mean y_mean scale nb_elt i_elt datas =
     (if i_elt < nb_elt then
        (if i_elt < length x_vec \<and> i_elt < length y_vec \<and> i_elt < length datas then
           (if scale = 0 then Inl ZeroDivisionError
            else datas_loop x_vec y_vec x_mean y_mean scale nb_elt (i_elt + 1)
                   (datas[i_elt := [2 * (x_vec ! i_elt - x_mean) / scale,
                                    2 * (y_vec ! i_elt - y_mean) / scale,
                                    datas ! i_elt ! 2]]))
         else Inl OutOfBounds)
      else Inr datas)"
  by pat_completeness auto
termination
  by (relation "measure (\<lambda>(x, y, xm, ym, sc, nb_elt, i_elt, d). nb_elt - i_elt)") auto

declare datas_loop.simps [simp del]

text \<open>
  Lines 30 to 71 of \<^verbatim>\<open>fit_circle_c\<close>: the centre and the radius of the fitted circle.
  The two scratch buffers are allocated by \<^verbatim>\<open>malloc\<close> first; the allocation is
  taken to succeed. \<^verbatim>\<open>lstsq\<close> rejects a right-hand side whose length is not the
  number of rows of \<open>datas\<close>.
\<close>

definition circle_fit ::
  "lstsq_fun \<Rightarrow> DTYPE_coord list \<Rightarrow> DTYPE_coord list \<Rightarrow>
   error + DTYPE_coord \<times> DTYPE_coord \<times> DTYPE_coord" where
  "circle_fit lstsq x_vec y_vec =
     (let nb_elt = shape0 x_vec in
      case mean_loop x_vec y_vec nb_elt 0 0 0 of
        Inl e \<Rightarrow> Inl e
      | Inr (x_sum, y_sum) \<Rightarrow>
          if nb_elt = 0 then Inl ZeroDivisionError
          else
            (let y_mean = y_sum / real nb_elt;
                 x_mean = x_sum / real nb_elt
             in case norme_of x_vec y_vec x_mean y_mean of
                  Inl e \<Rightarrow> Inl e
                | Inr norme \<Rightarrow>
                    (case array_max norme of
                       Inl e \<Rightarrow> Inl e
                     | Inr norme_max \<Rightarrow>
                         (let scale = pow_half norme_max in
                          case datas_loop x_vec y_vec x_mean y_mean scale nb_elt 0
                                 (replicate nb_elt [1, 1, 1]) of
                            Inl e \<Rightarrow> Inl e
                          | Inr datas \<Rightarrow>
                              if length datas \<noteq> length norme then Inl LinAlgError
                              else
                                (case lstsq datas (map (\<lambda>v. v / norme_max) norme) of
                                   (center_x, center_y, radius) \<Rightarrow>
                                     (let radius = radius + center_x\<^sup>2 + center_y\<^sup>2;
                                          radius = pow_half radius;
                                          center_x = center_x * scale;
                                          center_y = center_y * scale;
                                          radius = radius * scale;
                                          center_x = center_x + x_mean;
                                          center_y = center_y + y_mean
                                      in Inr (center_x, center_y, radius)))))))"

text \<open>
  Lines 77 to 87: the vertices outside the circle are projected, the others kept.
  \<^verbatim>\<open>
  for i_elt from 0 <= i_elt < nb_elt:
      dist_poly = ((x_vec[i_elt] - center_x) ** 2 + (y_vec[i_elt] - center_y) ** 2) ** .5
      if dist_poly > radius:
          p_inon_y[i_elt] = center_y + radius * (y_vec[i_elt] - center_y) / dist_poly
          p_inon_x[i_elt] = center_x - (center_x - x_vec[i_elt]) * (center_y - p_inon_y[i_elt]) / (center_y - y_vec[i_elt])
      else:
          p_inon_x[i_elt] = x_vec[i_elt]
          p_inon_y[i_elt] = y_vec[i_elt]
  \<close>
  Each of the two divisions stops the model when its divisor is zero.
\<close>

function project_loop ::
  "DTYPE_coord list \<Rightarrow> DTYPE_coord list \<Rightarrow> DTYPE_coord \<Rightarrow> DTYPE_coord \<Rightarrow> DTYPE_coord \<Rightarrow>
   nat \<Rightarrow> nat \<Rightarrow> DTYPE_coord list \<Rightarrow> DTYPE_coord list \<Rightarrow>
   error + DTYPE_coord list \<times> DTYPE_coord list" where
  "project_loop x_vec y_vec center_x center_y radius nb_elt i_elt p_inon_x p_inon_y =
     (if i_elt < nb_elt then
        (if i_elt < length x_vec \<and> i_elt < length y_vec \<and>
            i_elt < length p_inon_x \<and> i_elt < length p_inon_y then
           (let dist_poly = pow_half ((x_vec ! i_elt - center_x)\<^sup>2 + (y_vec ! i_elt - center_y)\<^sup>2) in
            if dist_poly > radius then
              (if dist_poly = 0 then Inl ZeroDivisionError
               else
                 (let p_y = center_y + radius * (y_vec ! i_elt - center_y) / dist_poly in
                  if center_y - y_vec ! i_elt = 0 then Inl ZeroDivisionError
                  else project_loop x_vec y_vec center_x center_y radius nb_elt (i_elt + 1)
                         (p_inon_x[i_elt := center_x - (center_x - x_vec ! i_elt) * (center_y - p_y)
                                                        / (center_y - y_vec ! i_elt)])
                         (p_inon_y[i_elt := p_y])))
            else project_loop x_vec y_vec center_x center_y radius nb_elt (i_elt + 1)
                   (p_inon_x[i_elt := x_vec ! i_elt]) (p_inon_y[i_elt := y_vec ! i_elt]))
         else Inl OutOfBounds)
      else Inr (p_inon_x, p_inon_y))"
  by pat_completeness auto
termination
  by (relation "measure (\<lambda>(x, y, cx, cy, r, nb_elt, i_elt, px, py). nb_elt - i_elt)") auto

declare project_loop.simps [simp del]

text \<open>
  Lines 90 to 102: the two areas. The bound of the loop is \<open>nb_elt - 1\<close> in
  \<^verbatim>\<open>unsigned int\<close>.
  \<^verbatim>\<open>
  for i_elt from 0 <= i_elt < (nb_elt - 1):
      p_area_incirc += p_inon_x[i_elt] * p_inon_y[1 + i_elt] - p_inon_x[i_elt + 1] * p_inon_y[i_elt]
      p_area += x_vec[i_elt] * y_vec[1 + i_elt] - x_vec[1 + i_elt] * y_vec[i_elt]
  p_area = abs(p_area) * .5
  p_area_incirc = abs(p_area_incirc) * .5
  \<close>
\<close>

function area_loop ::
  "DTYPE_coord list \<Rightarrow> DTYPE_coord list \<Rightarrow> DTYPE_coord list \<Rightarrow> DTYPE_coord list \<Rightarrow>
   nat \<Rightarrow> nat \<Rightarrow> DTYPE_coord \<Rightarrow> DTYPE_coord \<Rightarrow> error + DTYPE_coord \<times> DTYPE_coord" where
  "area_loop x_vec y_vec p_inon_x p_inon_y bound i_elt p_area_incirc p_area =
     (if i_elt < bound then
        (if 1 + i_elt < length x_vec \<and> 1 + i_elt < length y_vec \<and>
            1 + i_elt < length p_inon_x \<and> 1 + i_elt < length p_inon_y
         then area_loop x_vec y_vec p_inon_x p_inon_y bound (i_elt + 1)
                (p_area_incirc + (p_inon_x ! i_elt * p_inon_y ! (1 + i_elt)
                                  - p_inon_x ! (i_elt + 1) * p_inon_y ! i_elt))
                (p_area + (x_vec ! i_elt * y_vec ! (1 + i_elt) - x_vec ! (1 + i_elt) * y_vec ! i_elt))
         else Inl OutOfBounds)
      else Inr (p_area_incirc, p_area))"
  by pat_completeness auto
termination
  by (relation "measure (\<lambda>(x, y, px, py, bound, i_elt, a, b). bound - i_elt)") auto

declare area_loop.simps [simp del]

definition polygon_areas ::
  "DTYPE_coord list \<Rightarrow> DTYPE_coord list \<Rightarrow> DTYPE_coord list \<Rightarrow> DTYPE_coord list \<Rightarrow> nat \<Rightarrow>
   error + DTYPE_coord \<times> DTYPE_coord" where
  "polygon_areas x_vec y_vec p_inon_x p_inon_y nb_elt =
     (case area_loop x_vec y_vec p_inon_x p_inon_y ((nb_elt + 2 ^ 32 - 1) mod 2 ^ 32) 0 0 0 of
        Inl e \<Rightarrow> Inl e
      | Inr (p_area_incirc, p_area) \<Rightarrow>
          (let p_area = \<bar>p_area\<bar> * 0.5;
               p_area_incirc = \<bar>p_area_incirc\<bar> * 0.5
           in Inr (p_area_incirc, p_area)))"

text \<open>
  \<^verbatim>\<open>fit_circle_c\<close>. The buffers \<open>p_inon_x\<close>, \<open>p_inon_y\<close> hold \<open>nb_elt\<close> doubles; every slot
  is written by the projection loop before the area loop reads it, so their initial
  content does not matter.
\<close>

definition fit_circle_c ::
  "lstsq_fun \<Rightarrow> DTYPE_coord list \<Rightarrow> DTYPE_coord list \<Rightarrow>
   error + DTYPE_coord \<times> DTYPE_coord \<times> DTYPE_coord \<times> DTYPE_coord" where
  "fit_circle_c lstsq x_vec y_vec =
     (let nb_elt = shape0 x_vec in
      case circle_fit lstsq x_vec y_vec of
        Inl e \<Rightarrow> Inl e
      | Inr (center_x, center_y, radius) \<Rightarrow>
          (let c_area = radius\<^sup>2 * PI in
           case project_loop x_vec y_vec center_x center_y radius nb_elt 0
                  (replicate nb_elt 0) (replicate nb_elt 0) of
             Inl e \<Rightarrow> Inl e
           | Inr (p_inon_x, p_inon_y) \<Rightarrow>
               (case polygon_areas x_vec y_vec p_inon_x p_inon_y nb_elt of
                  Inl e \<Rightarrow> Inl e
                | Inr (p_area_incirc, p_area) \<Rightarrow>
                    if c_area = 0 then Inl ZeroDivisionError
                    else
                      (let a_err = (c_area - 2 * p_area_incirc + p_area) * 100 / c_area
                       in Inr (center_x, center_y, radius, a_err)))))"

text \<open>A two-dimensional array of shape \<open>(n0, n1)\<close>.\<close>

definition shaped :: "nat \<Rightarrow> nat \<Rightarrow> 'a list list \<Rightarrow> bool" where
  "shaped n0 n1 m = (length m = n0 \<and> (\<forall>row \<in> set m. length row = n1))"

section \<open>Properties of ContourIndex\<close>

lemma unat_add_le: "unat (a + b :: 'a::len word) \<le> unat a + unat b"
  by (simp add: unat_word_ariths)

lemma nb_pts_loop_bounded:
  "unat i_end \<le> length a \<Longrightarrow>
   \<exists>r. nb_pts_loop a i i_end s = Inr r \<and>
       unat r \<le> unat s + (\<Sum>c = unat i ..< unat i_end. unat (a ! c))"
proof (induction a i i_end s rule: nb_pts_loop.induct)
  case (1 a i e s)
  show ?case
  proof (cases "i < e")
    case True
    then have ib: "in_bounds a i"
      using "1.prems" by (simp add: in_bounds_def word_less_nat_alt)
    from "1.IH" [OF True ib "1.prems"] obtain r where
      r: "nb_pts_loop a (i + 1) e (s + elt a i) = Inr r"
         "unat r \<le> unat (s + elt a i) + (\<Sum>c = unat (i + 1) ..< unat e. unat (a ! c))"
      by blast
    have lt: "unat i < unat e" using True by (simp add: word_less_nat_alt)
    have "(\<Sum>c = unat i ..< unat e. unat (a ! c)) =
          unat (a ! unat i) + (\<Sum>c = Suc (unat i) ..< unat e. unat (a ! c))"
      using lt by (simp add: sum.atLeast_Suc_lessThan)
    moreover have "unat (s + elt a i) \<le> unat s + unat (a ! unat i)"
      using unat_add_le [of s "elt a i"] by (simp add: elt_def)
    ultimately have "unat r \<le> unat s + (\<Sum>c = unat i ..< unat e. unat (a ! c))"
      using r(2) by (simp add: unat_succ [OF True])
    then show ?thesis
      using True ib r(1) by (subst nb_pts_loop.simps) simp
  next
    case False
    then show ?thesis by (subst nb_pts_loop.simps) simp
  qed
qed

lemma nearest_loop_returns:
  "unat e \<le> length xs \<Longrightarrow> unat e \<le> length ys \<Longrightarrow>
   \<exists>r. nearest_loop xs ys xp yp i e i_ref d = Inr r"
proof (induction xs ys xp yp i e i_ref d rule: nearest_loop.induct)
  case (1 xs ys xp yp i e i_ref d)
  show ?case
  proof (cases "i < e")
    case True
    then have ib: "in_bounds xs i \<and> in_bounds ys i"
      using "1.prems" by (simp add: in_bounds_def word_less_nat_alt)
    show ?thesis
      using True ib "1.IH" "1.prems"
      by (subst nearest_loop.simps) (simp add: Let_def)
  next
    case False
    then show ?thesis by (subst nearest_loop.simps) simp
  qed
qed

lemma owner_loop_range:
  "unat ms < unat i \<Longrightarrow> unat i \<le> unat me \<Longrightarrow> unat me \<le> length ifp \<Longrightarrow>
   \<exists>k. owner_loop ifp ms me nr i = Inr k \<and> unat k < unat me - unat ms"
proof (induction ifp ms me nr i rule: owner_loop.induct)
  case (1 ifp ms me nr i)
  have sub: "unat (i - 1 - ms) = unat i - 1 - unat ms"
  proof -
    have "i \<noteq> 0" using "1.prems"(1) by auto
    then have a: "unat (i - 1) = unat i - 1" by (rule unat_minus_one)
    then have "ms \<le> i - 1" using "1.prems"(1) by (simp add: word_le_nat_alt)
    then show ?thesis using a by (simp add: unat_sub)
  qed
  show ?case
  proof (cases "i < me")
    case True
    then have ib: "in_bounds ifp i \<and> in_bounds ifp ms"
      using "1.prems" by (simp add: in_bounds_def word_less_nat_alt)
    have lt: "unat i < unat me" using True by (simp add: word_less_nat_alt)
    show ?thesis
    proof (cases "elt ifp i - elt ifp ms > nr")
      case c: True
      then show ?thesis
        using True ib sub lt "1.prems"
        by (subst owner_loop.simps) simp
    next
      case c: False
      have "\<exists>k. owner_loop ifp ms me nr (i + 1) = Inr k \<and> unat k < unat me - unat ms"
        using "1.IH" [OF True ib c] "1.prems" lt by (simp add: unat_succ [OF True])
      then show ?thesis
        using True ib c by (subst owner_loop.simps) simp
    qed
  next
    case False
    then show ?thesis
      using sub "1.prems" by (subst owner_loop.simps) simp
  qed
qed

lemma chain_span:
  fixes u p :: "nat \<Rightarrow> nat"
  shows "0 < n \<Longrightarrow> (\<forall>c \<in> {F ..< F + n}. c + 1 < F + n \<longrightarrow> u (c + 1) = u c + p c) \<Longrightarrow>
         u F + (\<Sum>c = F ..< F + n. p c) = u (F + n - 1) + p (F + n - 1)"
proof (induction n)
  case 0
  then show ?case by simp
next
  case (Suc n)
  show ?case
  proof (cases "n = 0")
    case True
    then show ?thesis by simp
  next
    case False
    then have pos: "0 < n" by simp
    have "\<forall>c \<in> {F ..< F + n}. c + 1 < F + n \<longrightarrow> u (c + 1) = u c + p c"
      using Suc.prems(2) by simp
    from Suc.IH [OF pos this]
    have ih: "u F + (\<Sum>c = F ..< F + n. p c) = u (F + n - 1) + p (F + n - 1)" .
    have "F + n - 1 \<in> {F ..< F + Suc n}" using pos by auto
    then have "F + n - 1 + 1 < F + Suc n \<longrightarrow> u (F + n - 1 + 1) = u (F + n - 1) + p (F + n - 1)"
      using Suc.prems(2) by blast
    then have "u (F + n) = u (F + n - 1) + p (F + n - 1)"
      using pos by simp
    then show ?thesis using ih by simp
  qed
qed

lemma owner_loop_from_start:
  assumes "unat ms < unat me" "unat me \<le> length ifp"
  shows "\<exists>k. owner_loop ifp ms me nr ms = Inr k \<and> unat k < unat me - unat ms"
proof -
  have lt: "ms < me" using assms(1) by (simp add: word_less_nat_alt)
  have ib: "in_bounds ifp ms" using assms by (simp add: in_bounds_def)
  have "\<exists>k. owner_loop ifp ms me nr (ms + 1) = Inr k \<and> unat k < unat me - unat ms"
    using assms by (intro owner_loop_range) (simp_all add: unat_succ [OF lt])
  then show ?thesis
    using lt ib by (subst owner_loop.simps) simp
qed


text \<open>
  C1. The claim: the index returned is that of the contour owning the point of the
  level nearest to \<open>(xpt, ypt)\<close>, the distance being taken over the x and the y
  coordinates. The code passes \<^verbatim>\<open>& y_value[0]\<close> for both coordinate arrays, so
  \<open>x_value\<close> is never read. Level 0 below has two contours of one point each,
  \<open>(0, 5)\<close> and \<open>(10, 0)\<close>; the target is \<open>(10, 0)\<close>. The nearest point over x and y
  is point 1 (\<^verbatim>\<open>nearest_contour_index\<close> applied to \<open>x_value\<close> and \<open>y_value\<close> returns
  offset 1), owned by contour 1; the code returns contour 0.
\<close>

theorem nearest_path_ignores_x:
  "index_from_nearest_path 0 [0] [2] [1, 1] [0, 1] [0, 10] [5, 0] 10 0 = Inr (Some 0) \<and>
   nearest_contour_index [0, 10] [5, 0] 10 0 0 2 = Inr 1"
  by (simp add: index_from_nearest_path_def in_bounds_def elt_def dist_array_size_def
      nearest_contour_index_def nb_pts_loop.simps nearest_loop.simps owner_loop.simps)

text \<open>
  C9. For a level index inside \<open>nb_c_per_l\<close>, the result is \<open>None\<close> (neither an index
  nor an error) exactly when the level has no contour.
\<close>

theorem absent_iff_no_contour:
  "in_bounds nb_c_per_l level_index \<Longrightarrow>
   (index_from_nearest_path level_index l_i nb_c_per_l nb_pt_per_c indices_of_first_pts
        x_value y_value xpt ypt = Inr None)
   = (elt nb_c_per_l level_index = 0)"
  by (auto simp: index_from_nearest_path_def Let_def split: sum.splits prod.splits)

theorem absent_iff_no_contour_witness:
  "in_bounds [0, 2 :: DTYPE_ui] (0 :: DTYPE_ui) \<and> in_bounds [0, 2 :: DTYPE_ui] (1 :: DTYPE_ui) \<and>
   index_from_nearest_path 0 [0, 0] [0, 2] [1, 1] [0, 1] [0, 10] [5, 0] 10 0 = Inr None \<and>
   index_from_nearest_path 1 [0, 0] [0, 2] [1, 1] [0, 1] [0, 10] [5, 0] 10 0 \<noteq> Inr None"
  using absent_iff_no_contour [of "[0, 2]" 0 "[0, 0]" "[1, 1]" "[0, 1]" "[0, 10]" "[5, 0]" 10 0]
    absent_iff_no_contour [of "[0, 2]" 1 "[0, 0]" "[1, 1]" "[0, 1]" "[0, 10]" "[5, 0]" 10 0]
  by (simp add: in_bounds_def elt_def)

text \<open>
  C10. On a well-formed level with at least one contour the call returns an index,
  and the index is below the level's number of contours: the scan cannot return at
  \<open>i_elt = main_start\<close> (the difference there is 0, never above \<open>nearesti\<close>), so
  \<open>i_elt - 1 - main_start\<close> does not wrap, and the statement after the loop yields
  \<open>nb_c_per_l[level] - 1\<close>.
\<close>

theorem index_in_level_range:
  assumes wf: "level_well_formed level_index l_i nb_c_per_l nb_pt_per_c indices_of_first_pts
                 x_value y_value"
    and nz: "elt nb_c_per_l level_index \<noteq> 0"
  shows "\<exists>k. index_from_nearest_path level_index l_i nb_c_per_l nb_pt_per_c indices_of_first_pts
               x_value y_value xpt ypt = Inr (Some k) \<and>
             unat k < unat (elt nb_c_per_l level_index)"
proof -
  define ms where "ms = elt l_i level_index"
  define nb where "nb = elt nb_c_per_l level_index"
  define F where "F = unat ms"
  define N where "N = unat nb"
  let ?u = "\<lambda>c. unat (indices_of_first_pts ! c)"
  let ?p = "\<lambda>c. unat (nb_pt_per_c ! c)"
  have ibl: "in_bounds l_i level_index" and ibn: "in_bounds nb_c_per_l level_index"
    and len: "length indices_of_first_pts = length nb_pt_per_c" "length nb_pt_per_c < 2 ^ 32"
    and lenxy: "length y_value = length x_value" "length x_value < 2 ^ 32"
    and FN: "F + N \<le> length nb_pt_per_c"
    and cs: "\<forall>c \<in> {F ..< F + N}. ?u c < length x_value \<and> ?u c + ?p c \<le> length x_value \<and>
               (c + 1 < F + N \<longrightarrow> ?u (c + 1) = ?u c + ?p c)"
    using wf by (simp_all add: level_well_formed_def Let_def ms_def nb_def F_def N_def)
  have Npos: "0 < N" using nz by (simp add: N_def nb_def unat_gt_0)
  have me: "unat (ms + nb) = F + N"
    using FN len(2) by (simp add: F_def N_def unat_add_lem [THEN iffD1])
  obtain r where r: "nb_pts_loop nb_pt_per_c ms (ms + nb) 0 = Inr r"
      "unat r \<le> (\<Sum>c = F ..< F + N. ?p c)"
    using nb_pts_loop_bounded [of "ms + nb" nb_pt_per_c ms 0] FN me by (auto simp: F_def)
  have span: "?u F + (\<Sum>c = F ..< F + N. ?p c) = ?u (F + N - 1) + ?p (F + N - 1)"
    using cs by (intro chain_span [OF Npos]) simp
  have "F + N - 1 \<in> {F ..< F + N}" using Npos by simp
  then have "?u (F + N - 1) + ?p (F + N - 1) \<le> length x_value" using cs by blast
  then have endle: "?u F + unat r \<le> length x_value" using span r(2) by simp
  have "F \<in> {F ..< F + N}" using Npos by simp
  then have startlt: "?u F < length x_value" using cs by blast
  have ibs: "in_bounds indices_of_first_pts ms"
    using FN Npos len by (simp add: in_bounds_def F_def)
  have das: "dist_array_size ms nb nb_pt_per_c indices_of_first_pts =
               Inr (ms, ms + nb, of_nat (?u F), of_nat (?u F + unat r))"
    using r(1) ibs endle lenxy by (simp add: dist_array_size_def Let_def elt_def F_def)
  have ustart: "unat (of_nat (?u F) :: DTYPE_ui) = ?u F"
    by simp
  have uend: "unat (of_nat (?u F + unat r) :: DTYPE_ui) = ?u F + unat r"
    using endle lenxy by (simp add: unat_add_lem [THEN iffD1])
  have "\<exists>nr. nearest_contour_index y_value y_value xpt ypt
               (of_nat (?u F)) (of_nat (?u F + unat r)) = Inr nr"
  proof -
    have ib: "in_bounds y_value (of_nat (?u F) :: DTYPE_ui)"
      using startlt lenxy by (simp add: in_bounds_def)
    have "\<exists>q. nearest_loop y_value y_value xpt ypt (of_nat (?u F)) (of_nat (?u F + unat r))
              (of_nat (?u F)) d = Inr q" for d
      using endle lenxy uend by (intro nearest_loop_returns) simp_all
    then obtain q where "nearest_loop y_value y_value xpt ypt (of_nat (?u F))
         (of_nat (?u F + unat r)) (of_nat (?u F))
         ((elt y_value (of_nat (?u F)) - xpt)\<^sup>2 + (elt y_value (of_nat (?u F)) - ypt)\<^sup>2) = Inr q"
      by blast
    then show ?thesis
      using ib by (simp add: nearest_contour_index_def Let_def)
  qed
  then obtain nr where nr: "nearest_contour_index y_value y_value xpt ypt
                         (of_nat (?u F)) (of_nat (?u F + unat r)) = Inr nr"
    by blast
  obtain k where k: "owner_loop indices_of_first_pts ms (ms + nb) nr ms = Inr k"
      "unat k < unat (ms + nb) - unat ms"
    using owner_loop_from_start [of ms "ms + nb" indices_of_first_pts nr] me Npos FN len
    by (auto simp: F_def)
  have "index_from_nearest_path level_index l_i nb_c_per_l nb_pt_per_c indices_of_first_pts
          x_value y_value xpt ypt = Inr (Some k)"
    using ibl ibn nz das nr k(1)
    by (simp add: index_from_nearest_path_def Let_def ms_def [symmetric] nb_def [symmetric])
  moreover have "unat k < unat nb" using k(2) me by (simp add: F_def N_def)
  ultimately show ?thesis by (simp add: nb_def)
qed

theorem index_in_level_range_witness:
  "level_well_formed 1 [0, 1] [1, 2] [2, 1, 3] [0, 2, 3] [0, 1, 2, 3, 4, 5] [0, 0, 0, 5, 0, 0] \<and>
   elt [1, 2 :: DTYPE_ui] (1 :: DTYPE_ui) \<noteq> 0 \<and>
   (\<exists>k. index_from_nearest_path 1 [0, 1] [1, 2] [2, 1, 3] [0, 2, 3]
           [0, 1, 2, 3, 4, 5] [0, 0, 0, 5, 0, 0] 3 5 = Inr (Some k) \<and>
        unat k < unat (elt [1, 2 :: DTYPE_ui] (1 :: DTYPE_ui))) \<and>
   index_from_nearest_path 1 [0, 1] [1, 2] [2, 1, 3] [0, 2, 3]
     [0, 1, 2, 3, 4, 5] [0, 0, 0, 5, 0, 0] 3 5 = Inr (Some 1)"
proof -
  have wf: "level_well_formed 1 [0, 1] [1, 2] [2, 1, 3] [0, 2, 3] [0, 1, 2, 3, 4, 5] [0, 0, 0, 5, 0, 0]"
    by (simp add: level_well_formed_def in_bounds_def elt_def Let_def atLeastLessThanSuc)
  have nz: "elt [1, 2 :: DTYPE_ui] (1 :: DTYPE_ui) \<noteq> 0"
    by (simp add: elt_def)
  have val: "index_from_nearest_path 1 [0, 1] [1, 2] [2, 1, 3] [0, 2, 3]
     [0, 1, 2, 3, 4, 5] [0, 0, 0, 5, 0, 0] 3 5 = Inr (Some 1)"
    by (simp add: index_from_nearest_path_def in_bounds_def elt_def dist_array_size_def
        nearest_contour_index_def nb_pts_loop.simps nearest_loop.simps owner_loop.simps)
  show ?thesis
    using wf nz val index_in_level_range [OF wf nz, of 3 5] by simp
qed

section \<open>Properties of PolygonContainment\<close>

text \<open>The contribution of edge \<open>j\<close> of a ring, the ring taken cyclically.\<close>

definition edge_delta :: "DTYPE_coord \<Rightarrow> DTYPE_coord \<Rightarrow> (DTYPE_coord \<times> DTYPE_coord) list \<Rightarrow> nat \<Rightarrow> int" where
  "edge_delta x_test y_test ring j =
     edge_step x_test y_test (ring ! j) (ring ! (Suc j mod length ring)) 0"

lemma edge_step_delta: "edge_step x y p q wn = wn + edge_step x y p q 0"
  by (simp add: edge_step_def Let_def)

lemma wn_loop_sum:
  "nb_elt = length ring \<Longrightarrow> i \<le> nb_elt \<Longrightarrow>
   wn_loop x y ring nb_elt i wn = Inr (wn + (\<Sum>j = i ..< nb_elt. edge_delta x y ring j))"
proof (induction x y ring nb_elt i wn rule: wn_loop.induct)
  case (1 x y ring nb_elt i wn)
  show ?case
  proof (cases "i < nb_elt")
    case True
    define i_next where "i_next = (if i + 1 = nb_elt then 0 else i + 1)"
    have nx: "i_next = Suc i mod length ring"
      using True "1.prems"(1) by (auto simp: i_next_def)
    have ib: "i < length ring \<and> i_next < length ring"
      using True "1.prems"(1) by (auto simp: i_next_def)
    have ih: "wn_loop x y ring nb_elt (i + 1) (edge_step x y (ring ! i) (ring ! i_next) wn) =
          Inr (edge_step x y (ring ! i) (ring ! i_next) wn + (\<Sum>j = i + 1 ..< nb_elt. edge_delta x y ring j))"
      using "1.IH" [OF True i_next_def ib] "1.prems" True by simp
    have "(\<Sum>j = i ..< nb_elt. edge_delta x y ring j) =
          edge_delta x y ring i + (\<Sum>j = i + 1 ..< nb_elt. edge_delta x y ring j)"
      using True by (simp add: sum.atLeast_Suc_lessThan)
    moreover have "edge_step x y (ring ! i) (ring ! i_next) wn = wn + edge_delta x y ring i"
      using edge_step_delta [of x y "ring ! i" "ring ! i_next" wn] by (simp add: edge_delta_def nx)
    moreover have "wn_loop x y ring nb_elt i wn =
        wn_loop x y ring nb_elt (i + 1) (edge_step x y (ring ! i) (ring ! i_next) wn)"
      using True ib by (subst wn_loop.simps) (simp add: Let_def i_next_def)
    ultimately show ?thesis
      using ih by simp
  next
    case False
    then show ?thesis by (subst wn_loop.simps) simp
  qed
qed

lemma cyclic_sum_shift1:
  fixes g :: "nat \<Rightarrow> int"
  shows "(\<Sum>j < n. g (Suc j mod n)) = (\<Sum>j < n. g j)"
proof (cases n)
  case 0
  then show ?thesis by simp
next
  case (Suc m)
  have "(\<Sum>j < Suc m. g (Suc j mod Suc m)) = (\<Sum>j < m. g (Suc j mod Suc m)) + g 0"
    by simp
  also have "(\<Sum>j < m. g (Suc j mod Suc m)) = (\<Sum>j < m. g (Suc j))"
    by (rule sum.cong) simp_all
  also have "(\<Sum>j < m. g (Suc j)) + g 0 = (\<Sum>j < Suc m. g j)"
    using sum.lessThan_Suc_shift [of g m] by simp
  finally show ?thesis using Suc by simp
qed

lemma cyclic_sum_rotate:
  fixes h :: "nat \<Rightarrow> int"
  shows "(\<Sum>j < n. h ((k + j) mod n)) = (\<Sum>j < n. h j)"
proof (induction k)
  case 0
  show ?case by (rule sum.cong) simp_all
next
  case (Suc k)
  have "(\<Sum>j < n. h ((Suc k + j) mod n)) = (\<Sum>j < n. h ((k + Suc j mod n) mod n))"
    by (rule sum.cong) (simp_all add: mod_add_right_eq)
  also have "\<dots> = (\<Sum>j < n. h ((k + j) mod n))"
    by (rule cyclic_sum_shift1 [of "\<lambda>m. h ((k + m) mod n)" n])
  finally show ?case using Suc.IH by simp
qed

lemma edge_delta_rotate:
  "j < length ring \<Longrightarrow>
   edge_delta x y (rotate k ring) j = edge_delta x y ring ((k + j) mod length ring)"
proof -
  assume j: "j < length ring"
  then have pos: "0 < length ring" by auto
  have a: "rotate k ring ! j = ring ! ((k + j) mod length ring)"
    using j by (simp add: nth_rotate)
  have "Suc j mod length ring < length ring" using pos by simp
  then have "rotate k ring ! (Suc j mod length ring) =
             ring ! ((k + Suc j mod length ring) mod length ring)"
    by (simp add: nth_rotate)
  also have "(k + Suc j mod length ring) mod length ring = Suc ((k + j) mod length ring) mod length ring"
    by (metis add_Suc_right mod_Suc_eq mod_add_right_eq)
  finally show ?thesis using a by (simp add: edge_delta_def)
qed


text \<open>
  C8. The winding number does not change when the ring's vertex sequence is rotated
  cyclically: \<open>rotate k\<close> starts the same ring \<open>k\<close> vertices later. The bound on the
  length is the one under which \<open>nb_elt\<close> is the number of rows and the C \<^verbatim>\<open>int\<close>
  counter is exact.
\<close>

theorem winding_number_rotation:
  "length xy_poly < 2 ^ 31 \<Longrightarrow>
   winding_number_poly x_test y_test (rotate k xy_poly) = winding_number_poly x_test y_test xy_poly"
proof -
  assume len: "length xy_poly < 2 ^ 31"
  let ?n = "length xy_poly"
  have s0: "shape0 xy_poly = ?n" "shape0 (rotate k xy_poly) = ?n"
    using len by (simp_all add: shape0_def)
  have "(\<Sum>j = 0 ..< ?n. edge_delta x_test y_test (rotate k xy_poly) j) =
        (\<Sum>j < ?n. edge_delta x_test y_test xy_poly ((k + j) mod ?n))"
    by (rule sum.cong) (auto simp: edge_delta_rotate)
  also have "\<dots> = (\<Sum>j < ?n. edge_delta x_test y_test xy_poly j)"
    by (rule cyclic_sum_rotate)
  finally have "(\<Sum>j = 0 ..< ?n. edge_delta x_test y_test (rotate k xy_poly) j) =
                (\<Sum>j = 0 ..< ?n. edge_delta x_test y_test xy_poly j)"
    by (simp add: atLeast0LessThan)
  then show ?thesis
    by (simp add: winding_number_poly_def s0 wn_loop_sum)
qed

theorem winding_number_rotation_witness:
  "length [(0, 0), (0, 10), (10, 10), (10, 0 :: real)] < (2 :: nat) ^ 31 \<and>
   winding_number_poly 5 5 (rotate 1 [(0, 0), (0, 10), (10, 10), (10, 0)]) =
   winding_number_poly 5 5 [(0, 0), (0, 10), (10, 10), (10, 0)] \<and>
   winding_number_poly 5 5 [(0, 0), (0, 10), (10, 10), (10, 0)] = Inr (- 1)"
  using winding_number_rotation [of "[(0, 0), (0, 10), (10, 10), (10, 0)]" 5 5 1]
  by (simp add: winding_number_poly_def shape0_def wn_loop.simps edge_step_def is_left_def)


section \<open>Properties of GeoDistance\<close>

lemma distance_vector_loop_correct:
  "nb_elt \<le> length lon0 \<Longrightarrow> nb_elt \<le> length lat0 \<Longrightarrow> nb_elt \<le> length lon1 \<Longrightarrow>
   nb_elt \<le> length lat1 \<Longrightarrow> nb_elt \<le> length d \<Longrightarrow> i \<le> nb_elt \<Longrightarrow>
   \<exists>d'. distance_vector_loop lon0 lat0 lon1 lat1 nb_elt i d = Inr d' \<and> length d' = length d \<and>
        (\<forall>j. i \<le> j \<and> j < nb_elt \<longrightarrow> d' ! j = distance (lon0 ! j) (lat0 ! j) (lon1 ! j) (lat1 ! j)) \<and>
        (\<forall>j. j < i \<or> nb_elt \<le> j \<longrightarrow> d' ! j = d ! j)"
proof (induction lon0 lat0 lon1 lat1 nb_elt i d rule: distance_vector_loop.induct)
  case (1 lon0 lat0 lon1 lat1 nb_elt i d)
  show ?case
  proof (cases "i < nb_elt")
    case True
    define v where "v = distance (lon0 ! i) (lat0 ! i) (lon1 ! i) (lat1 ! i)"
    have ib: "i < length lat1 \<and> i < length lat0 \<and> i < length lon1 \<and> i < length lon0 \<and> i < length d"
      using True "1.prems" by simp
    have step: "distance_vector_loop lon0 lat0 lon1 lat1 nb_elt i d =
                distance_vector_loop lon0 lat0 lon1 lat1 nb_elt (i + 1) (d[i := v])"
      using True ib by (subst distance_vector_loop.simps) (simp add: v_def distance_def Let_def)
    have "\<exists>d'. distance_vector_loop lon0 lat0 lon1 lat1 nb_elt (i + 1) (d[i := v]) = Inr d' \<and>
            length d' = length d \<and>
            (\<forall>j. i + 1 \<le> j \<and> j < nb_elt \<longrightarrow>
                d' ! j = distance (lon0 ! j) (lat0 ! j) (lon1 ! j) (lat1 ! j)) \<and>
            (\<forall>j. j < i + 1 \<or> nb_elt \<le> j \<longrightarrow> d' ! j = (d[i := v]) ! j)"
      using "1.IH" [OF True ib refl refl refl refl refl] "1.prems" True
      by (simp add: v_def distance_def Let_def)
    then obtain d' where d': "distance_vector_loop lon0 lat0 lon1 lat1 nb_elt (i + 1) (d[i := v]) = Inr d'"
      "length d' = length d"
      "\<forall>j. i + 1 \<le> j \<and> j < nb_elt \<longrightarrow>
                d' ! j = distance (lon0 ! j) (lat0 ! j) (lon1 ! j) (lat1 ! j)"
      "\<forall>j. j < i + 1 \<or> nb_elt \<le> j \<longrightarrow> d' ! j = (d[i := v]) ! j"
      by blast
    have "d' ! i = v" using d'(4) ib by simp
    then have a: "\<forall>j. i \<le> j \<and> j < nb_elt \<longrightarrow>
                d' ! j = distance (lon0 ! j) (lat0 ! j) (lon1 ! j) (lat1 ! j)"
      using d'(3) by (metis Suc_eq_plus1 Suc_leI le_neq_implies_less v_def)
    have b: "\<forall>j. j < i \<or> nb_elt \<le> j \<longrightarrow> d' ! j = d ! j" using d'(4) True by auto
    show ?thesis using step d'(1,2) a b by simp
  next
    case False
    then show ?thesis using "1.prems" by (subst distance_vector_loop.simps) simp
  qed
qed

lemma shaped_update:
  "shaped n0 n1 m \<Longrightarrow> r < n0 \<Longrightarrow> shaped n0 n1 (m[r := (m ! r)[c := v]])"
  by (auto simp: shaped_def dest!: set_update_subset_insert [THEN subsetD])

lemma distance_matrix_row_correct:
  "length lon0 = n0 \<Longrightarrow> length lat0 = n0 \<Longrightarrow> length lon1 = nb_elt1 \<Longrightarrow> length lat1 = nb_elt1 \<Longrightarrow>
   shaped n0 nb_elt1 d \<Longrightarrow> i0 < n0 \<Longrightarrow> i1 \<le> nb_elt1 \<Longrightarrow>
   \<exists>d'. distance_matrix_row lon0 lat0 lon1 lat1 nb_elt1 i0 i1 d = Inr d' \<and> shaped n0 nb_elt1 d' \<and>
        (\<forall>c. i1 \<le> c \<and> c < nb_elt1 \<longrightarrow>
             d' ! i0 ! c = distance (lon0 ! i0) (lat0 ! i0) (lon1 ! c) (lat1 ! c)) \<and>
        (\<forall>c < i1. d' ! i0 ! c = d ! i0 ! c) \<and>
        (\<forall>r. r \<noteq> i0 \<longrightarrow> d' ! r = d ! r)"
proof (induction lon0 lat0 lon1 lat1 nb_elt1 i0 i1 d rule: distance_matrix_row.induct)
  case (1 lon0 lat0 lon1 lat1 nb_elt1 i0 i1 d)
  show ?case
  proof (cases "i1 < nb_elt1")
    case True
    define v where "v = distance (lon0 ! i0) (lat0 ! i0) (lon1 ! i1) (lat1 ! i1)"
    define d1 where "d1 = d[i0 := (d ! i0)[i1 := v]]"
    have rowlen: "length (d ! i0) = nb_elt1" and dlen: "length d = n0"
      using "1.prems" by (auto simp: shaped_def)
    have ib: "i1 < length lat1 \<and> i0 < length lat0 \<and> i1 < length lon1 \<and> i0 < length lon0 \<and>
              i0 < length d \<and> i1 < length (d ! i0)"
      using True "1.prems" rowlen dlen by simp
    have step: "distance_matrix_row lon0 lat0 lon1 lat1 nb_elt1 i0 i1 d =
                distance_matrix_row lon0 lat0 lon1 lat1 nb_elt1 i0 (i1 + 1) d1"
      using True ib by (subst distance_matrix_row.simps) (simp add: d1_def v_def distance_def Let_def)
    have sh1: "shaped n0 nb_elt1 d1"
      unfolding d1_def using "1.prems" by (intro shaped_update) simp_all
    have "\<exists>d'. distance_matrix_row lon0 lat0 lon1 lat1 nb_elt1 i0 (i1 + 1) d1 = Inr d' \<and>
            shaped n0 nb_elt1 d' \<and>
            (\<forall>c. i1 + 1 \<le> c \<and> c < nb_elt1 \<longrightarrow>
                d' ! i0 ! c = distance (lon0 ! i0) (lat0 ! i0) (lon1 ! c) (lat1 ! c)) \<and>
            (\<forall>c < i1 + 1. d' ! i0 ! c = d1 ! i0 ! c) \<and>
            (\<forall>r. r \<noteq> i0 \<longrightarrow> d' ! r = d1 ! r)"
      using "1.IH" [OF True ib refl refl refl refl refl] "1.prems" True sh1
      by (simp add: d1_def v_def distance_def Let_def)
    then obtain d' where d': "distance_matrix_row lon0 lat0 lon1 lat1 nb_elt1 i0 (i1 + 1) d1 = Inr d'"
      "shaped n0 nb_elt1 d'"
      "\<forall>c. i1 + 1 \<le> c \<and> c < nb_elt1 \<longrightarrow>
                d' ! i0 ! c = distance (lon0 ! i0) (lat0 ! i0) (lon1 ! c) (lat1 ! c)"
      "\<forall>c < i1 + 1. d' ! i0 ! c = d1 ! i0 ! c"
      "\<forall>r. r \<noteq> i0 \<longrightarrow> d' ! r = d1 ! r"
      by blast
    have "d' ! i0 ! i1 = v" using d'(4) ib by (simp add: d1_def)
    then have a: "\<forall>c. i1 \<le> c \<and> c < nb_elt1 \<longrightarrow>
                d' ! i0 ! c = distance (lon0 ! i0) (lat0 ! i0) (lon1 ! c) (lat1 ! c)"
      using d'(3) by (metis Suc_eq_plus1 Suc_leI le_neq_implies_less v_def)
    have b: "\<forall>c < i1. d' ! i0 ! c = d ! i0 ! c" using d'(4) ib by (simp add: d1_def)
    have c: "\<forall>r. r \<noteq> i0 \<longrightarrow> d' ! r = d ! r" using d'(5) by (simp add: d1_def)
    show ?thesis using step d'(1,2) a b c by simp
  next
    case False
    then show ?thesis using "1.prems" by (subst distance_matrix_row.simps) simp
  qed
qed

lemma distance_matrix_loop_correct:
  "length lon0 = nb_elt0 \<Longrightarrow> length lat0 = nb_elt0 \<Longrightarrow> length lon1 = nb_elt1 \<Longrightarrow>
   length lat1 = nb_elt1 \<Longrightarrow> shaped nb_elt0 nb_elt1 d \<Longrightarrow> i0 \<le> nb_elt0 \<Longrightarrow>
   \<exists>d'. distance_matrix_loop lon0 lat0 lon1 lat1 nb_elt0 nb_elt1 i0 d = Inr d' \<and>
        shaped nb_elt0 nb_elt1 d' \<and>
        (\<forall>r c. i0 \<le> r \<and> r < nb_elt0 \<and> c < nb_elt1 \<longrightarrow>
             d' ! r ! c = distance (lon0 ! r) (lat0 ! r) (lon1 ! c) (lat1 ! c)) \<and>
        (\<forall>r < i0. d' ! r = d ! r)"
proof (induction lon0 lat0 lon1 lat1 nb_elt0 nb_elt1 i0 d rule: distance_matrix_loop.induct)
  case (1 lon0 lat0 lon1 lat1 nb_elt0 nb_elt1 i0 d)
  show ?case
  proof (cases "i0 < nb_elt0")
    case True
    obtain d1 where d1: "distance_matrix_row lon0 lat0 lon1 lat1 nb_elt1 i0 0 d = Inr d1"
      "shaped nb_elt0 nb_elt1 d1"
      "\<forall>c. c < nb_elt1 \<longrightarrow> d1 ! i0 ! c = distance (lon0 ! i0) (lat0 ! i0) (lon1 ! c) (lat1 ! c)"
      "\<forall>r. r \<noteq> i0 \<longrightarrow> d1 ! r = d ! r"
      using distance_matrix_row_correct [of lon0 nb_elt0 lat0 lon1 nb_elt1 lat1 d i0 0] "1.prems" True
      by auto
    have step: "distance_matrix_loop lon0 lat0 lon1 lat1 nb_elt0 nb_elt1 i0 d =
                distance_matrix_loop lon0 lat0 lon1 lat1 nb_elt0 nb_elt1 (i0 + 1) d1"
      using True d1(1) by (subst distance_matrix_loop.simps) simp
    obtain d' where d': "distance_matrix_loop lon0 lat0 lon1 lat1 nb_elt0 nb_elt1 (i0 + 1) d1 = Inr d'"
      "shaped nb_elt0 nb_elt1 d'"
      "\<forall>r c. i0 + 1 \<le> r \<and> r < nb_elt0 \<and> c < nb_elt1 \<longrightarrow>
             d' ! r ! c = distance (lon0 ! r) (lat0 ! r) (lon1 ! c) (lat1 ! c)"
      "\<forall>r < i0 + 1. d' ! r = d1 ! r"
      using "1.IH" [OF True d1(1)] "1.prems" True d1(2) by auto
    have row: "d' ! i0 = d1 ! i0" using d'(4) by simp
    have a: "\<forall>r c. i0 \<le> r \<and> r < nb_elt0 \<and> c < nb_elt1 \<longrightarrow>
             d' ! r ! c = distance (lon0 ! r) (lat0 ! r) (lon1 ! c) (lat1 ! c)"
    proof (intro allI impI)
      fix r c assume rc: "i0 \<le> r \<and> r < nb_elt0 \<and> c < nb_elt1"
      show "d' ! r ! c = distance (lon0 ! r) (lat0 ! r) (lon1 ! c) (lat1 ! c)"
      proof (cases "r = i0")
        case True
        then show ?thesis using row d1(3) rc by simp
      next
        case False
        then show ?thesis using d'(3) rc by simp
      qed
    qed
    have b: "\<forall>r < i0. d' ! r = d ! r" using d'(4) d1(4) by simp
    show ?thesis using step d'(1,2) a b by simp
  next
    case False
    then show ?thesis using "1.prems" by (subst distance_matrix_loop.simps) simp
  qed
qed


text \<open>
  C7. For four input arrays of equal length, \<^verbatim>\<open>distance_vector\<close> succeeds and entry \<open>i\<close>
  of the output is \<open>distance (lon0[i], lat0[i], lon1[i], lat1[i])\<close>; and for
  \<open>lon0\<close>, \<open>lat0\<close> of one length and \<open>lon1\<close>, \<open>lat1\<close> of another, \<^verbatim>\<open>distance_matrix\<close>
  succeeds and entry \<open>(i, j)\<close> is \<open>distance (lon0[i], lat0[i], lon1[j], lat1[j])\<close>.
  The output array has the shape of the inputs, which are indexable by \<^verbatim>\<open>DTYPE_ui\<close>.
\<close>

theorem distance_arrays_elementwise:
  "(length lon0 < 2 ^ 32 \<and> length lat0 = length lon0 \<and> length lon1 = length lon0 \<and>
    length lat1 = length lon0 \<and> length dist_arr = length lon0 \<longrightarrow>
    (\<exists>d. distance_vector lon0 lat0 lon1 lat1 dist_arr = Inr d \<and> length d = length lon0 \<and>
         (\<forall>i < length lon0. d ! i = distance (lon0 ! i) (lat0 ! i) (lon1 ! i) (lat1 ! i)))) \<and>
   (length lon0 < 2 ^ 32 \<and> length lat0 = length lon0 \<and> length lon1 < 2 ^ 32 \<and>
    length lat1 = length lon1 \<and> shaped (length lon0) (length lon1) dist_mat \<longrightarrow>
    (\<exists>d. distance_matrix lon0 lat0 lon1 lat1 dist_mat = Inr d \<and>
         shaped (length lon0) (length lon1) d \<and>
         (\<forall>i < length lon0. \<forall>j < length lon1.
            d ! i ! j = distance (lon0 ! i) (lat0 ! i) (lon1 ! j) (lat1 ! j))))"
proof (intro conjI impI)
  assume h: "length lon0 < 2 ^ 32 \<and> length lat0 = length lon0 \<and> length lon1 = length lon0 \<and>
    length lat1 = length lon0 \<and> length dist_arr = length lon0"
  then have "shape0 lon0 = length lon0" by (simp add: shape0_def)
  then show "\<exists>d. distance_vector lon0 lat0 lon1 lat1 dist_arr = Inr d \<and> length d = length lon0 \<and>
         (\<forall>i < length lon0. d ! i = distance (lon0 ! i) (lat0 ! i) (lon1 ! i) (lat1 ! i))"
    using distance_vector_loop_correct [of "length lon0" lon0 lat0 lon1 lat1 dist_arr 0] h
    by (auto simp: distance_vector_def)
next
  assume h: "length lon0 < 2 ^ 32 \<and> length lat0 = length lon0 \<and> length lon1 < 2 ^ 32 \<and>
    length lat1 = length lon1 \<and> shaped (length lon0) (length lon1) dist_mat"
  then have "shape0 lon0 = length lon0" "shape0 lon1 = length lon1" by (simp_all add: shape0_def)
  then show "\<exists>d. distance_matrix lon0 lat0 lon1 lat1 dist_mat = Inr d \<and>
         shaped (length lon0) (length lon1) d \<and>
         (\<forall>i < length lon0. \<forall>j < length lon1.
            d ! i ! j = distance (lon0 ! i) (lat0 ! i) (lon1 ! j) (lat1 ! j))"
    using distance_matrix_loop_correct [of lon0 "length lon0" lat0 lon1 "length lon1" lat1 dist_mat 0] h
    by (auto simp: distance_matrix_def)
qed

theorem distance_arrays_elementwise_witness:
  "length [0, 10 :: real] < (2 :: nat) ^ 32 \<and> length [0, 20 :: real] = length [0, 10 :: real] \<and>
   length [1, 2 :: real] = length [0, 10 :: real] \<and> length [3, 4 :: real] = length [0, 10 :: real] \<and>
   length [7, 7 :: real] = length [0, 10 :: real] \<and>
   shaped (length [0, 10 :: real]) (length [1, 2 :: real]) [[7, 7], [7, 7 :: real]] \<and>
   (\<exists>d. distance_vector [0, 10] [0, 20] [1, 2] [3, 4] [7, 7] = Inr d \<and>
        d ! 0 = distance 0 0 1 3 \<and> d ! 1 = distance 10 20 2 4) \<and>
   (\<exists>d. distance_matrix [0, 10] [0, 20] [1, 2] [3, 4] [[7, 7], [7, 7]] = Inr d \<and>
        d ! 0 ! 0 = distance 0 0 1 3 \<and> d ! 0 ! 1 = distance 0 0 2 4 \<and>
        d ! 1 ! 0 = distance 10 20 1 3 \<and> d ! 1 ! 1 = distance 10 20 2 4)"
  using distance_arrays_elementwise [of "[0, 10]" "[0, 20]" "[1, 2]" "[3, 4]" "[7, 7]" "[[7, 7], [7, 7]]"]
  by (auto simp: shaped_def)












section \<open>Properties of CircleFitter\<close>

text \<open>
  The area of a ring as the specification words it: the absolute value of the
  shoelace sum over every edge of the ring, the edge from the last stored vertex back
  to the first included, times 0.5. \<open>closing_edge\<close> is the term of that last edge and
  \<open>open_shoelace\<close> the sum over the edges between consecutive stored vertices.
\<close>

definition shoelace_cyclic :: "DTYPE_coord list \<Rightarrow> DTYPE_coord list \<Rightarrow> DTYPE_coord" where
  "shoelace_cyclic xs ys =
     (\<Sum>i = 0 ..< length xs.
        xs ! i * ys ! (Suc i mod length xs) - xs ! (Suc i mod length xs) * ys ! i)"

definition spec_ring_area :: "DTYPE_coord list \<Rightarrow> DTYPE_coord list \<Rightarrow> DTYPE_coord" where
  "spec_ring_area xs ys = \<bar>shoelace_cyclic xs ys\<bar> * 0.5"

definition closing_edge :: "DTYPE_coord list \<Rightarrow> DTYPE_coord list \<Rightarrow> DTYPE_coord" where
  "closing_edge xs ys = last xs * hd ys - hd xs * last ys"

definition open_shoelace :: "DTYPE_coord list \<Rightarrow> DTYPE_coord list \<Rightarrow> DTYPE_coord" where
  "open_shoelace xs ys = (\<Sum>i = 0 ..< length xs - 1. xs ! i * ys ! Suc i - xs ! Suc i * ys ! i)"


text \<open>
  The solution of minimum norm among the least-squares solutions, which is what
  \<^verbatim>\<open>lstsq\<close> returns for a system without full rank; and a solver of which only the
  result on one system is fixed.
\<close>

definition sq_norm :: "DTYPE_coord \<times> DTYPE_coord \<times> DTYPE_coord \<Rightarrow> real" where
  "sq_norm sol = (case sol of (a, b, c) \<Rightarrow> a\<^sup>2 + b\<^sup>2 + c\<^sup>2)"

definition minimum_norm_solution ::
  "DTYPE_coord list list \<Rightarrow> DTYPE_coord list \<Rightarrow> DTYPE_coord \<times> DTYPE_coord \<times> DTYPE_coord \<Rightarrow> bool" where
  "minimum_norm_solution datas rhs sol =
     (least_squares datas rhs sol \<and>
      (\<forall>sol'. least_squares datas rhs sol' \<longrightarrow> sq_norm sol \<le> sq_norm sol'))"

definition lstsq_at ::
  "DTYPE_coord list list \<Rightarrow> DTYPE_coord list \<Rightarrow> DTYPE_coord \<times> DTYPE_coord \<times> DTYPE_coord \<Rightarrow> lstsq_fun" where
  "lstsq_at A b sol = (\<lambda>datas rhs. if datas = A \<and> rhs = b then sol else (0, 0, 0))"



lemma area_loop_sum:
  "Suc bound \<le> length x \<Longrightarrow> Suc bound \<le> length y \<Longrightarrow> Suc bound \<le> length px \<Longrightarrow>
   Suc bound \<le> length py \<Longrightarrow> i \<le> bound \<Longrightarrow>
   area_loop x y px py bound i a b =
     Inr (a + (\<Sum>j = i ..< bound. px ! j * py ! Suc j - px ! Suc j * py ! j),
          b + (\<Sum>j = i ..< bound. x ! j * y ! Suc j - x ! Suc j * y ! j))"
proof (induction x y px py bound i a b rule: area_loop.induct)
  case (1 x y px py bound i a b)
  show ?case
  proof (cases "i < bound")
    case True
    have ib: "1 + i < length x \<and> 1 + i < length y \<and> 1 + i < length px \<and> 1 + i < length py"
      using True "1.prems" by simp
    show ?thesis
      using True ib "1.IH" [OF True ib] "1.prems"
      by (subst area_loop.simps) (simp add: sum.atLeast_Suc_lessThan)
  next
    case False
    then show ?thesis using "1.prems" by (subst area_loop.simps) simp
  qed
qed

lemma shoelace_cyclic_split:
  assumes "length ys = length xs" "xs \<noteq> []"
  shows "shoelace_cyclic xs ys = open_shoelace xs ys + closing_edge xs ys"
proof -
  obtain m where m: "length xs = Suc m"
    using assms(2) by (cases xs) auto
  have "shoelace_cyclic xs ys =
        (\<Sum>i = 0 ..< Suc m. xs ! i * ys ! (Suc i mod Suc m) - xs ! (Suc i mod Suc m) * ys ! i)"
    by (simp only: shoelace_cyclic_def m)
  also have "\<dots> = (\<Sum>i = 0 ..< m. xs ! i * ys ! (Suc i mod Suc m) - xs ! (Suc i mod Suc m) * ys ! i)
                 + (xs ! m * ys ! 0 - xs ! 0 * ys ! m)"
    by simp
  also have "(\<Sum>i = 0 ..< m. xs ! i * ys ! (Suc i mod Suc m) - xs ! (Suc i mod Suc m) * ys ! i)
           = (\<Sum>i = 0 ..< m. xs ! i * ys ! Suc i - xs ! Suc i * ys ! i)"
    by (rule sum.cong) simp_all
  finally have eq: "shoelace_cyclic xs ys =
      (\<Sum>i = 0 ..< m. xs ! i * ys ! Suc i - xs ! Suc i * ys ! i) + (xs ! m * ys ! 0 - xs ! 0 * ys ! m)" .
  have "ys \<noteq> []" using assms by auto
  then have "last ys = ys ! m" "hd ys = ys ! 0" "last xs = xs ! m" "hd xs = xs ! 0"
    using assms m by (simp_all add: last_conv_nth hd_conv_nth)
  then show ?thesis
    using eq m by (simp add: open_shoelace_def closing_edge_def)
qed


text \<open>
  C3, as the code has it. The loop runs over \<open>nb_elt - 1\<close> edges, those between
  consecutive stored vertices: the area computed for the polygon, and likewise for the
  ring clipped to the circle, is the absolute value of the cyclic shoelace sum without
  the term of the closing edge, times 0.5. It is the area of the full ring when the
  ring is stored closed, the last stored vertex repeating the first.
\<close>

theorem polygon_area_open_sum:
  assumes "length y_vec = length x_vec" "length p_inon_x = length x_vec"
    "length p_inon_y = length x_vec" "x_vec \<noteq> []" "length x_vec < 2 ^ 32"
  shows "\<exists>p_area_incirc p_area.
           polygon_areas x_vec y_vec p_inon_x p_inon_y (shape0 x_vec) = Inr (p_area_incirc, p_area) \<and>
           p_area = \<bar>shoelace_cyclic x_vec y_vec - closing_edge x_vec y_vec\<bar> * 0.5 \<and>
           p_area_incirc = \<bar>shoelace_cyclic p_inon_x p_inon_y - closing_edge p_inon_x p_inon_y\<bar> * 0.5 \<and>
           (last x_vec = hd x_vec \<and> last y_vec = hd y_vec \<longrightarrow> p_area = spec_ring_area x_vec y_vec) \<and>
           (last p_inon_x = hd p_inon_x \<and> last p_inon_y = hd p_inon_y \<longrightarrow>
              p_area_incirc = spec_ring_area p_inon_x p_inon_y)"
proof -
  let ?n = "length x_vec"
  have pos: "0 < ?n" using assms(4) by simp
  have s0: "shape0 x_vec = ?n" using assms(5) by (simp add: shape0_def)
  have bound: "(?n + 2 ^ 32 - 1) mod 2 ^ 32 = ?n - 1"
    using pos assms(5) by (simp add: mod_if)
  have loop: "area_loop x_vec y_vec p_inon_x p_inon_y (?n - 1) 0 0 0 =
                Inr (open_shoelace p_inon_x p_inon_y, open_shoelace x_vec y_vec)"
    using assms pos by (subst area_loop_sum) (simp_all add: open_shoelace_def)
  have pne: "p_inon_x \<noteq> []" using assms(2,4) by auto
  have a: "open_shoelace x_vec y_vec = shoelace_cyclic x_vec y_vec - closing_edge x_vec y_vec"
    using shoelace_cyclic_split [OF assms(1,4)] by simp
  have b: "open_shoelace p_inon_x p_inon_y =
           shoelace_cyclic p_inon_x p_inon_y - closing_edge p_inon_x p_inon_y"
    using shoelace_cyclic_split [of p_inon_y p_inon_x] pne assms(2,3) by simp
  have c: "last xs = hd xs \<and> last ys = hd ys \<longrightarrow> closing_edge xs ys = 0" for xs ys
    by (simp add: closing_edge_def)
  have res: "polygon_areas x_vec y_vec p_inon_x p_inon_y (shape0 x_vec) =
               Inr (\<bar>open_shoelace p_inon_x p_inon_y\<bar> * 0.5, \<bar>open_shoelace x_vec y_vec\<bar> * 0.5)"
    unfolding polygon_areas_def s0 bound loop by simp
  show ?thesis
  proof (intro exI conjI)
    show "polygon_areas x_vec y_vec p_inon_x p_inon_y (shape0 x_vec) =
               Inr (\<bar>open_shoelace p_inon_x p_inon_y\<bar> * 0.5, \<bar>open_shoelace x_vec y_vec\<bar> * 0.5)"
      by (rule res)
    show "\<bar>open_shoelace x_vec y_vec\<bar> * 0.5 =
          \<bar>shoelace_cyclic x_vec y_vec - closing_edge x_vec y_vec\<bar> * 0.5"
      by (simp only: a)
    show "\<bar>open_shoelace p_inon_x p_inon_y\<bar> * 0.5 =
          \<bar>shoelace_cyclic p_inon_x p_inon_y - closing_edge p_inon_x p_inon_y\<bar> * 0.5"
      by (simp only: b)
    show "last x_vec = hd x_vec \<and> last y_vec = hd y_vec \<longrightarrow>
          \<bar>open_shoelace x_vec y_vec\<bar> * 0.5 = spec_ring_area x_vec y_vec"
      using a c [of x_vec y_vec] by (simp add: spec_ring_area_def)
    show "last p_inon_x = hd p_inon_x \<and> last p_inon_y = hd p_inon_y \<longrightarrow>
          \<bar>open_shoelace p_inon_x p_inon_y\<bar> * 0.5 = spec_ring_area p_inon_x p_inon_y"
      using b c [of p_inon_x p_inon_y] by (simp add: spec_ring_area_def)
  qed
qed

theorem polygon_area_open_sum_witness:
  "length [0, 0, 2, 2, 0 :: real] = length [0, 2, 2, 0, 0 :: real] \<and>
   [0, 2, 2, 0, 0 :: real] \<noteq> [] \<and> length [0, 2, 2, 0, 0 :: real] < (2 :: nat) ^ 32 \<and>
   last [0, 2, 2, 0, 0 :: real] = hd [0, 2, 2, 0, 0 :: real] \<and>
   last [0, 0, 2, 2, 0 :: real] = hd [0, 0, 2, 2, 0 :: real] \<and>
   polygon_areas [0, 2, 2, 0, 0] [0, 0, 2, 2, 0] [0, 2, 2, 0, 0] [0, 0, 2, 2, 0] 5 = Inr (4, 4) \<and>
   spec_ring_area [0, 2, 2, 0, 0] [0, 0, 2, 2, 0] = 4"
  using polygon_area_open_sum [of "[0, 0, 2, 2, 0]" "[0, 2, 2, 0, 0]" "[0, 2, 2, 0, 0]" "[0, 0, 2, 2, 0]"]
  by (simp add: polygon_areas_def area_loop.simps shape0_def)


text \<open>
  C3, as stated, fails on the unit square stored as its four corners
  \<open>(1, 1), (1, 2), (2, 2), (2, 1)\<close>: the code computes 3/2, the cyclic shoelace sum
  gives the area 1.
\<close>

theorem polygon_area_closing_edge_counterexample:
  "polygon_areas [1, 1, 2, 2] [1, 2, 2, 1] [1, 1, 2, 2] [1, 2, 2, 1] 4 = Inr (3 / 2, 3 / 2) \<and>
   spec_ring_area [1, 1, 2, 2] [1, 2, 2, 1] = 1"
  by (simp add: polygon_areas_def area_loop.simps spec_ring_area_def shoelace_cyclic_def)


lemma sqrt_49: "sqrt 49 = 7"
  by (rule real_sqrt_unique) simp_all

lemma sqrt_25_49: "sqrt (25 / 49) = 5 / 7"
  by (rule real_sqrt_unique) (simp_all add: power2_eq_square)

lemma diamond_residual:
  "residual [[2, 0, 1], [0, 2 / 7, 1], [- 2, 0, 1], [0, - (2 / 7), 1]] [1, 1 / 49, 1, 1 / 49] (a, b, c) =
     8 * a\<^sup>2 + 8 / 49 * b\<^sup>2 + 4 * (c - 25 / 49)\<^sup>2 + 2304 / 2401"
  by (simp add: residual_def power2_eq_square algebra_simps)

lemma diamond_least_squares:
  "least_squares [[2, 0, 1], [0, 2 / 7, 1], [- 2, 0, 1], [0, - (2 / 7), 1]] [1, 1 / 49, 1, 1 / 49] sol
   = (sol = (0, 0, 25 / 49))"
proof
  assume ls: "least_squares [[2, 0, 1], [0, 2 / 7, 1], [- 2, 0, 1], [0, - (2 / 7), 1]] [1, 1 / 49, 1, 1 / 49] sol"
  obtain a b c where sol: "sol = (a, b, c)" by (cases sol) auto
  have "8 * a\<^sup>2 + 8 / 49 * b\<^sup>2 + 4 * (c - 25 / 49)\<^sup>2 + 2304 / 2401 \<le> 2304 / 2401"
    using ls [unfolded least_squares_def, rule_format, of "(0, 0, 25 / 49)"]
    unfolding sol diamond_residual by simp
  then have le: "8 * a\<^sup>2 + 8 / 49 * b\<^sup>2 + 4 * (c - 25 / 49)\<^sup>2 \<le> 0" by simp
  have "0 \<le> a\<^sup>2" "0 \<le> b\<^sup>2" "0 \<le> (c - 25 / 49)\<^sup>2" by simp_all
  then have "a\<^sup>2 = 0" "b\<^sup>2 = 0" "(c - 25 / 49)\<^sup>2 = 0" using le by linarith+
  then show "sol = (0, 0, 25 / 49)" by (simp add: sol)
next
  assume "sol = (0, 0, 25 / 49)"
  then show "least_squares [[2, 0, 1], [0, 2 / 7, 1], [- 2, 0, 1], [0, - (2 / 7), 1]] [1, 1 / 49, 1, 1 / 49] sol"
    unfolding least_squares_def
  proof (intro allI)
    fix sol' :: "real \<times> real \<times> real"
    obtain a b c where sol': "sol' = (a, b, c)" by (cases sol') auto
    have "0 \<le> 8 * a\<^sup>2 + 8 / 49 * b\<^sup>2 + 4 * (c - 25 / 49)\<^sup>2" by simp
    then show "residual [[2, 0, 1], [0, 2 / 7, 1], [- 2, 0, 1], [0, - (2 / 7), 1]] [1, 1 / 49, 1, 1 / 49] sol
          \<le> residual [[2, 0, 1], [0, 2 / 7, 1], [- 2, 0, 1], [0, - (2 / 7), 1]] [1, 1 / 49, 1, 1 / 49] sol'"
      unfolding sol' \<open>sol = (0, 0, 25 / 49)\<close> diamond_residual by simp
  qed
qed

lemma diamond_system:
  "mean_loop [7, 0, - 7, 0] [0, 1, 0, - 1] 4 0 0 0 = Inr (0, 0)"
  "norme_of [7, 0, - 7, 0] [0, 1, 0, - 1] 0 0 = Inr [49, 1, 49, 1]"
  "array_max [49, 1, 49, 1] = Inr 49"
  "datas_loop [7, 0, - 7, 0] [0, 1, 0, - 1] 0 0 7 4 0 (replicate 4 [1, 1, 1]) =
     Inr [[2, 0, 1], [0, 2 / 7, 1], [- 2, 0, 1], [0, - (2 / 7), 1]]"
  by (simp_all add: mean_loop.simps norme_of_def array_max_def datas_loop.simps
      numeral_eq_Suc)

lemma diamond_circle_fit:
  assumes "lstsq [[2, 0, 1], [0, 2 / 7, 1], [- 2, 0, 1], [0, - (2 / 7), 1]] [1, 1 / 49, 1, 1 / 49]
             = (0, 0, 25 / 49)"
  shows "circle_fit lstsq [7, 0, - 7, 0] [0, 1, 0, - 1] = Inr (0, 0, 5)"
  using assms
  by (simp add: circle_fit_def shape0_def diamond_system pow_half_def sqrt_49 sqrt_25_49)


text \<open>
  C2. The polygon \<open>(7, 0), (0, 1), (-7, 0), (0, -1)\<close> is a valid input; its
  least-squares system has the single solution \<open>(0, 0, 25/49)\<close>, so for every solver
  that returns a least-squares solution the fitted circle has centre \<open>(0, 0)\<close> and
  radius 5. The vertex \<open>(7, 0)\<close> lies strictly outside (at distance 7) and its \<open>y\<close> is
  the centre's \<open>y\<close>: the projection step divides by \<open>center_y - y_vec[0] = 0\<close>, and
  nothing in the loop guards the division.
\<close>

theorem projection_divides_by_zero:
  assumes "least_squares [[2, 0, 1], [0, 2 / 7, 1], [- 2, 0, 1], [0, - (2 / 7), 1]] [1, 1 / 49, 1, 1 / 49]
             (lstsq [[2, 0, 1], [0, 2 / 7, 1], [- 2, 0, 1], [0, - (2 / 7), 1]] [1, 1 / 49, 1, 1 / 49])"
  shows "circle_fit lstsq [7, 0, - 7, 0] [0, 1, 0, - 1] = Inr (0, 0, 5) \<and>
         pow_half ((7 - 0)\<^sup>2 + (0 - 0)\<^sup>2) > 5 \<and>
         project_loop [7, 0, - 7, 0] [0, 1, 0, - 1] 0 0 5 4 0 (replicate 4 0) (replicate 4 0)
           = Inl ZeroDivisionError \<and>
         fit_circle_c lstsq [7, 0, - 7, 0] [0, 1, 0, - 1] = Inl ZeroDivisionError"
proof -
  have sol: "lstsq [[2, 0, 1], [0, 2 / 7, 1], [- 2, 0, 1], [0, - (2 / 7), 1]] [1, 1 / 49, 1, 1 / 49]
             = (0, 0, 25 / 49)"
    using assms by (simp only: diamond_least_squares)
  have fit: "circle_fit lstsq [7, 0, - 7, 0] [0, 1, 0, - 1] = Inr (0, 0, 5)"
    by (rule diamond_circle_fit [of lstsq, OF sol])
  have out: "pow_half ((7 - 0)\<^sup>2 + (0 - 0)\<^sup>2) > 5"
    by (simp add: pow_half_def sqrt_49)
  have prj: "project_loop [7, 0, - 7, 0] [0, 1, 0, - 1] 0 0 5 4 0 (replicate 4 0) (replicate 4 0)
           = Inl ZeroDivisionError"
    by (subst project_loop.simps) (simp add: pow_half_def sqrt_49)
  have "fit_circle_c lstsq [7, 0, - 7, 0] [0, 1, 0, - 1] = Inl ZeroDivisionError"
    by (simp add: fit_circle_c_def fit shape0_def prj)
  then show ?thesis using fit out prj by simp
qed

theorem projection_divides_by_zero_witness:
  "least_squares [[2, 0, 1], [0, 2 / 7, 1], [- 2, 0, 1], [0, - (2 / 7), 1]] [1, 1 / 49, 1, 1 / 49]
     (lstsq_at [[2, 0, 1], [0, 2 / 7, 1], [- 2, 0, 1], [0, - (2 / 7), 1]] [1, 1 / 49, 1, 1 / 49]
        (0, 0, 25 / 49)
        [[2, 0, 1], [0, 2 / 7, 1], [- 2, 0, 1], [0, - (2 / 7), 1]] [1, 1 / 49, 1, 1 / 49]) \<and>
   fit_circle_c
     (lstsq_at [[2, 0, 1], [0, 2 / 7, 1], [- 2, 0, 1], [0, - (2 / 7), 1]] [1, 1 / 49, 1, 1 / 49]
        (0, 0, 25 / 49))
     [7, 0, - 7, 0] [0, 1, 0, - 1] = Inl ZeroDivisionError"
proof -
  have h: "least_squares [[2, 0, 1], [0, 2 / 7, 1], [- 2, 0, 1], [0, - (2 / 7), 1]] [1, 1 / 49, 1, 1 / 49]
     (lstsq_at [[2, 0, 1], [0, 2 / 7, 1], [- 2, 0, 1], [0, - (2 / 7), 1]] [1, 1 / 49, 1, 1 / 49]
        (0, 0, 25 / 49)
        [[2, 0, 1], [0, 2 / 7, 1], [- 2, 0, 1], [0, - (2 / 7), 1]] [1, 1 / 49, 1, 1 / 49])"
    by (simp add: lstsq_at_def diamond_least_squares)
  show ?thesis
    using h projection_divides_by_zero
      [of "lstsq_at [[2, 0, 1], [0, 2 / 7, 1], [- 2, 0, 1], [0, - (2 / 7), 1]] [1, 1 / 49, 1, 1 / 49]
             (0, 0, 25 / 49)", OF h]
    by simp
qed

lemma points_on_line_residual:
  "residual [[0, - 2, 1], [0, - (2 / 7), 1], [0, 2 / 7, 1], [0, 2, 1]] [1, 1 / 49, 1 / 49, 1] (a, b, c) =
     400 / 49 * b\<^sup>2 + 4 * (c - 25 / 49)\<^sup>2 + 2304 / 2401"
  by (simp add: residual_def power2_eq_square algebra_simps)

lemma points_on_line_least_squares:
  "least_squares [[0, - 2, 1], [0, - (2 / 7), 1], [0, 2 / 7, 1], [0, 2, 1]] [1, 1 / 49, 1 / 49, 1] sol
   = (\<exists>a. sol = (a, 0, 25 / 49))"
proof
  assume ls: "least_squares [[0, - 2, 1], [0, - (2 / 7), 1], [0, 2 / 7, 1], [0, 2, 1]] [1, 1 / 49, 1 / 49, 1] sol"
  obtain a b c where sol: "sol = (a, b, c)" by (cases sol) auto
  have "400 / 49 * b\<^sup>2 + 4 * (c - 25 / 49)\<^sup>2 + 2304 / 2401 \<le> 2304 / 2401"
    using ls [unfolded least_squares_def, rule_format, of "(0, 0, 25 / 49)"]
    unfolding sol points_on_line_residual by simp
  then have le: "400 / 49 * b\<^sup>2 + 4 * (c - 25 / 49)\<^sup>2 \<le> 0" by simp
  have "0 \<le> b\<^sup>2" "0 \<le> (c - 25 / 49)\<^sup>2" by simp_all
  then have "b\<^sup>2 = 0" "(c - 25 / 49)\<^sup>2 = 0" using le by linarith+
  then show "\<exists>a. sol = (a, 0, 25 / 49)" by (simp add: sol)
next
  assume "\<exists>a. sol = (a, 0, 25 / 49)"
  then obtain a0 where s: "sol = (a0, 0, 25 / 49)" by blast
  show "least_squares [[0, - 2, 1], [0, - (2 / 7), 1], [0, 2 / 7, 1], [0, 2, 1]] [1, 1 / 49, 1 / 49, 1] sol"
    unfolding least_squares_def
  proof (intro allI)
    fix sol' :: "real \<times> real \<times> real"
    obtain a b c where sol': "sol' = (a, b, c)" by (cases sol') auto
    have "0 \<le> 400 / 49 * b\<^sup>2 + 4 * (c - 25 / 49)\<^sup>2" by simp
    then show "residual [[0, - 2, 1], [0, - (2 / 7), 1], [0, 2 / 7, 1], [0, 2, 1]] [1, 1 / 49, 1 / 49, 1] sol
          \<le> residual [[0, - 2, 1], [0, - (2 / 7), 1], [0, 2 / 7, 1], [0, 2, 1]] [1, 1 / 49, 1 / 49, 1] sol'"
      unfolding sol' s points_on_line_residual by simp
  qed
qed

lemma points_on_line_minimum_norm:
  "minimum_norm_solution [[0, - 2, 1], [0, - (2 / 7), 1], [0, 2 / 7, 1], [0, 2, 1]]
     [1, 1 / 49, 1 / 49, 1] (0, 0, 25 / 49)"
  by (auto simp: minimum_norm_solution_def points_on_line_least_squares sq_norm_def)


lemma points_on_line_fit:
  "fit_circle_c
     (lstsq_at [[0, - 2, 1], [0, - (2 / 7), 1], [0, 2 / 7, 1], [0, 2, 1]] [1, 1 / 49, 1 / 49, 1]
        (0, 0, 25 / 49))
     [0, 0, 0, 0] [- 7, - 1, 1, 7] = Inr (0, 0, 5, 100)"
proof -
  have sys: "mean_loop [0, 0, 0, 0] [- 7, - 1, 1, 7] 4 0 0 0 = Inr (0, 0)"
    "norme_of [0, 0, 0, 0] [- 7, - 1, 1, 7] 0 0 = Inr [49, 1, 1, 49]"
    "array_max [49, 1, 1, 49] = Inr 49"
    "datas_loop [0, 0, 0, 0] [- 7, - 1, 1, 7] 0 0 7 4 0 (replicate 4 [1, 1, 1]) =
       Inr [[0, - 2, 1], [0, - (2 / 7), 1], [0, 2 / 7, 1], [0, 2, 1]]"
    by (simp_all add: mean_loop.simps norme_of_def array_max_def datas_loop.simps numeral_eq_Suc)
  have fit: "circle_fit
     (lstsq_at [[0, - 2, 1], [0, - (2 / 7), 1], [0, 2 / 7, 1], [0, 2, 1]] [1, 1 / 49, 1 / 49, 1]
        (0, 0, 25 / 49)) [0, 0, 0, 0] [- 7, - 1, 1, 7] = Inr (0, 0, 5)"
    by (simp add: circle_fit_def shape0_def sys pow_half_def sqrt_49 sqrt_25_49 lstsq_at_def)
  have prj: "project_loop [0, 0, 0, 0] [- 7, - 1, 1, 7] 0 0 5 4 0 (replicate 4 0) (replicate 4 0)
           = Inr ([0, 0, 0, 0], [- 5, - 1, 1, 5])"
    by (simp add: project_loop.simps pow_half_def sqrt_49 numeral_eq_Suc)
  have ar: "polygon_areas [0, 0, 0, 0] [- 7, - 1, 1, 7] [0, 0, 0, 0] [- 5, - 1, 1, 5] 4 = Inr (0, 0)"
    by (simp add: polygon_areas_def area_loop.simps)
  show ?thesis
    by (simp add: fit_circle_c_def fit shape0_def prj ar PI_def)
qed

text \<open>
  Collinear points alone do not make the fitted radius zero. The system of
  \<open>(0, -7), (0, -1), (0, 1), (0, 7)\<close> is singular (the first column of \<open>datas\<close> is
  zero); with its minimum-norm least-squares solution \<open>(0, 0, 25/49)\<close> the fit has
  centre \<open>(0, 0)\<close>, radius 5 and shape error 100.
\<close>

lemma points_on_line_tuple:
  "minimum_norm_solution [[0, - 2, 1], [0, - (2 / 7), 1], [0, 2 / 7, 1], [0, 2, 1]]
     [1, 1 / 49, 1 / 49, 1] (0, 0, 25 / 49) \<and>
   fit_circle_c
     (lstsq_at [[0, - 2, 1], [0, - (2 / 7), 1], [0, 2 / 7, 1], [0, 2, 1]] [1, 1 / 49, 1 / 49, 1]
        (0, 0, 25 / 49))
     [0, 0, 0, 0] [- 7, - 1, 1, 7] = Inr (0, 0, 5, 100)"
  using points_on_line_minimum_norm points_on_line_fit by simp














section \<open>Input validation\<close>

text \<open>
  C5, as the code has it. No operation tests its input. \<^verbatim>\<open>winding_number_poly\<close> over
  a ring without vertices returns 0; \<^verbatim>\<open>fit_circle_c\<close> over empty arrays is stopped
  only by the division of the sums by the count 0; \<^verbatim>\<open>distance_vector\<close> takes its
  bound from \<open>lon0\<close> alone and, when the other arrays are at least as long, fills the
  first \<open>len(lon0)\<close> entries of the output and leaves the others as they were.
\<close>

theorem no_input_validation:
  "winding_number_poly x_test y_test [] = Inr 0 \<and>
   fit_circle_c lstsq [] y_vec = Inl ZeroDivisionError \<and>
   (length lon0 < 2 ^ 32 \<and> length lon0 \<le> length lat0 \<and> length lon0 \<le> length lon1 \<and>
    length lon0 \<le> length lat1 \<and> length lon0 \<le> length dist_arr \<longrightarrow>
    (\<exists>d. distance_vector lon0 lat0 lon1 lat1 dist_arr = Inr d \<and> length d = length dist_arr \<and>
         (\<forall>i. i < length lon0 \<longrightarrow> d ! i = distance (lon0 ! i) (lat0 ! i) (lon1 ! i) (lat1 ! i)) \<and>
         (\<forall>i. length lon0 \<le> i \<longrightarrow> d ! i = dist_arr ! i)))"
proof (intro conjI impI)
  show "winding_number_poly x_test y_test [] = Inr 0"
    by (simp add: winding_number_poly_def shape0_def wn_loop.simps)
  show "fit_circle_c lstsq [] y_vec = Inl ZeroDivisionError"
    by (simp add: fit_circle_c_def circle_fit_def shape0_def mean_loop.simps)
next
  assume h: "length lon0 < 2 ^ 32 \<and> length lon0 \<le> length lat0 \<and> length lon0 \<le> length lon1 \<and>
    length lon0 \<le> length lat1 \<and> length lon0 \<le> length dist_arr"
  then have "shape0 lon0 = length lon0" by (simp add: shape0_def)
  then show "\<exists>d. distance_vector lon0 lat0 lon1 lat1 dist_arr = Inr d \<and> length d = length dist_arr \<and>
         (\<forall>i. i < length lon0 \<longrightarrow> d ! i = distance (lon0 ! i) (lat0 ! i) (lon1 ! i) (lat1 ! i)) \<and>
         (\<forall>i. length lon0 \<le> i \<longrightarrow> d ! i = dist_arr ! i)"
    using distance_vector_loop_correct [of "length lon0" lon0 lat0 lon1 lat1 dist_arr 0] h
    by (auto simp: distance_vector_def)
qed

theorem no_input_validation_witness:
  "length [0 :: real] < (2 :: nat) ^ 32 \<and> length [0 :: real] \<le> length [0, 1 :: real] \<and>
   length [0 :: real] \<le> length [0, 2 :: real] \<and> length [0 :: real] \<le> length [0, 3 :: real] \<and>
   length [0 :: real] \<le> length [9, 8 :: real] \<and>
   (\<exists>d. distance_vector [0] [0, 1] [0, 2] [0, 3] [9, 8] = Inr d \<and> length d = 2 \<and>
        d ! 0 = distance 0 0 0 0 \<and> d ! 1 = 8)"
  using no_input_validation [of 0 0 "\<lambda>a b. (0, 0, 0)" "[]" "[0]" "[0, 1]" "[0, 2]" "[0, 3]" "[9, 8]"]
  by auto


text \<open>
  C5, as stated, fails: the ring without vertices gets the winding number 0, and
  arrays of lengths 1, 2, 2, 2 get a distance, with no error.
\<close>

theorem unchecked_input_counterexample:
  "winding_number_poly 5 5 [] = Inr 0 \<and>
   distance_vector [0] [0, 1] [0, 2] [0, 3] [9] = Inr [distance 0 0 0 0]"
  by (simp add: winding_number_poly_def shape0_def wn_loop.simps distance_vector_def
      distance_vector_loop.simps distance_def)


end
